theory Spec2Isabelle
  imports Complex_Main
begin


section \<open>Python strings and dictionaries\<close>

text \<open>
  A Python \<open>str\<close> is a sequence of Unicode code points; a code point is a natural number.
  String literals of the source are written \<open>u ''...''\<close>.
\<close>

type_synonym pystr = "nat list"

definition u :: "string \<Rightarrow> pystr" where
  "u s = map of_char s"

text \<open>\<open>str.isspace\<close> for one code point: the white space that \<open>str.strip()\<close> removes
  and that \<open>\s\<close> matches in a \<open>str\<close> pattern.\<close>

definition py_isspace :: "nat \<Rightarrow> bool" where
  "py_isspace c =
     ((9 \<le> c \<and> c \<le> 13) \<or> (28 \<le> c \<and> c \<le> 32) \<or> c = 133 \<or> c = 160 \<or> c = 5760
      \<or> (8192 \<le> c \<and> c \<le> 8202) \<or> c = 8232 \<or> c = 8233 \<or> c = 8239 \<or> c = 8287
      \<or> c = 12288)"

definition py_lstrip :: "pystr \<Rightarrow> pystr" where
  "py_lstrip s = dropWhile py_isspace s"

definition py_strip :: "pystr \<Rightarrow> pystr" where
  "py_strip s = rev (dropWhile py_isspace (rev (dropWhile py_isspace s)))"

text \<open>\<open>s.lstrip(":")\<close>\<close>

definition lstrip_colon :: "pystr \<Rightarrow> pystr" where
  "lstrip_colon s = dropWhile (\<lambda>c. c = 58) s"

text \<open>\<open>sep.join(xs)\<close>\<close>

fun py_join :: "pystr \<Rightarrow> pystr list \<Rightarrow> pystr" where
  "py_join sep [] = []"
| "py_join sep [x] = x"
| "py_join sep (x # y # ys) = x @ sep @ py_join sep (y # ys)"

text \<open>\<open>s.startswith(p)\<close> and \<open>p in s\<close>\<close>

fun starts_with :: "pystr \<Rightarrow> pystr \<Rightarrow> bool" where
  "starts_with [] s = True"
| "starts_with (p # ps) [] = False"
| "starts_with (p # ps) (c # cs) = (p = c \<and> starts_with ps cs)"

fun py_in :: "pystr \<Rightarrow> pystr \<Rightarrow> bool" where
  "py_in p [] = (p = [])"
| "py_in p (c # cs) = (starts_with p (c # cs) \<or> py_in p cs)"

text \<open>\<open>s.split(":", 1)[1]\<close>, used by the source only under \<open>":" in s\<close>.\<close>

definition after_first_colon :: "pystr \<Rightarrow> pystr" where
  "after_first_colon s = tl (dropWhile (\<lambda>c. c \<noteq> 58) s)"

text \<open>
  A Python \<open>dict\<close> keeps its keys in insertion order; assigning to a key that is already
  there replaces the value and leaves the key where it is.
\<close>

type_synonym ('k, 'v) pydict = "('k \<times> 'v) list"

fun dict_set :: "('k, 'v) pydict \<Rightarrow> 'k \<Rightarrow> 'v \<Rightarrow> ('k, 'v) pydict" where
  "dict_set [] k v = [(k, v)]"
| "dict_set ((k', v') # d) k v = (if k' = k then (k, v) # d else (k', v') # dict_set d k v)"

definition dict_keys :: "('k, 'v) pydict \<Rightarrow> 'k list" where
  "dict_keys d = map fst d"

definition dict_get :: "('k, 'v) pydict \<Rightarrow> 'k \<Rightarrow> 'v option" where
  "dict_get d k = map_of d k"

text \<open>\<open>dict(pairs)\<close>: the pairs are inserted from left to right.\<close>

fun dict_of :: "('k, 'v) pydict \<Rightarrow> ('k \<times> 'v) list \<Rightarrow> ('k, 'v) pydict" where
  "dict_of d [] = d"
| "dict_of d ((k, v) # kvs) = dict_of (dict_set d k v) kvs"

definition py_dict :: "('k \<times> 'v) list \<Rightarrow> ('k, 'v) pydict" where
  "py_dict kvs = dict_of [] kvs"

text \<open>The keys of a header in the order of the header: each name once, at its first
  occurrence. This is the order in which \<open>dict(zip(headers, cols))\<close> holds its keys.\<close>

fun header_keys :: "'a list \<Rightarrow> 'a list" where
  "header_keys [] = []"
| "header_keys (h # hs) = h # filter (\<lambda>x. x \<noteq> h) (header_keys hs)"

section \<open>The markup tree\<close>

text \<open>
  The document handed to the extraction is the tree that \<open>BeautifulSoup(html, 'html.parser')\<close>
  builds: a tag has a name, attributes and children; a leaf is a string of text. The
  \<open>soup\<close> itself is the list of the top-level nodes.
\<close>

datatype node = Tag string "(string \<times> pystr) list" "node list" | NavigableString pystr

type_synonym soup = "node list"

text \<open>
  An element found in the tree is kept with what the source navigates from it: its next
  siblings (\<open>find_next_sibling\<close>) and its ancestors, nearest first, each with its own
  next siblings (\<open>find_parent\<close>).
\<close>

type_synonym pos = "node \<times> node list"
type_synonym loc = "pos \<times> pos list"

fun descendants :: "pos list \<Rightarrow> node list \<Rightarrow> loc list" where
  "descendants anc [] = []"
| "descendants anc (NavigableString t # ns) =
     ((NavigableString t, ns), anc) # descendants anc ns"
| "descendants anc (Tag nm ats cs # ns) =
     ((Tag nm ats cs, ns), anc) # descendants ((Tag nm ats cs, ns) # anc) cs @ descendants anc ns"

definition elem :: "loc \<Rightarrow> node" where
  "elem l = fst (fst l)"

fun children :: "node \<Rightarrow> node list" where
  "children (Tag nm ats cs) = cs"
| "children (NavigableString t) = []"

fun is_tag :: "string \<Rightarrow> node \<Rightarrow> bool" where
  "is_tag nm (Tag nm' ats cs) = (nm' = nm)"
| "is_tag nm (NavigableString t) = False"

fun attr :: "string \<Rightarrow> node \<Rightarrow> pystr option" where
  "attr a (Tag nm ats cs) = map_of ats a"
| "attr a (NavigableString t) = None"

text \<open>\<open>s.split()\<close>: the words of \<open>s\<close> between runs of white space. The parser stores
  the \<open>class\<close> attribute as this list of words.\<close>

fun py_split :: "pystr \<Rightarrow> pystr \<Rightarrow> pystr list" where
  "py_split w [] = (if w = [] then [] else [w])"
| "py_split w (c # cs) =
     (if py_isspace c then (if w = [] then py_split [] cs else w # py_split [] cs)
      else py_split (w @ [c]) cs)"

text \<open>\<open>class_=c\<close>: one of the element's classes is \<open>c\<close>.\<close>

definition has_class :: "pystr \<Rightarrow> node \<Rightarrow> bool" where
  "has_class c n = (case attr ''class'' n of None \<Rightarrow> False | Some v \<Rightarrow> c \<in> set (py_split [] v))"

text \<open>\<open>style=lambda s: s and p in s\<close>\<close>

definition style_has :: "pystr \<Rightarrow> node \<Rightarrow> bool" where
  "style_has p n = (case attr ''style'' n of None \<Rightarrow> False | Some s \<Rightarrow> s \<noteq> [] \<and> py_in p s)"

text \<open>\<open>tag.string\<close>: the text of a tag whose only content is one string, possibly below
  a chain of only children.\<close>

fun tag_string :: "node \<Rightarrow> pystr option" where
  "tag_string (NavigableString t) = Some t"
| "tag_string (Tag nm ats [c]) = tag_string c"
| "tag_string (Tag nm ats cs) = None"

text \<open>\<open>string=re.compile(p)\<close> for a pattern \<open>p\<close> without special characters: the tag has
  a \<open>.string\<close> and \<open>p\<close> occurs in it.\<close>

definition string_matches :: "pystr \<Rightarrow> node \<Rightarrow> bool" where
  "string_matches p n = (case tag_string n of None \<Rightarrow> False | Some s \<Rightarrow> py_in p s)"

text \<open>\<open>soup.find(...)\<close> and \<open>tag.find_all(...)\<close> search every descendant in document order.\<close>

definition soup_find :: "(node \<Rightarrow> bool) \<Rightarrow> soup \<Rightarrow> loc option" where
  "soup_find P sp = List.find (\<lambda>l. P (elem l)) (descendants [] sp)"

definition find_all :: "(node \<Rightarrow> bool) \<Rightarrow> node \<Rightarrow> loc list" where
  "find_all P n = filter (\<lambda>l. P (elem l)) (descendants [] (children n))"

text \<open>\<open>soup.find(name, class_=cls)\<close>\<close>

definition find_tag_class :: "string \<Rightarrow> string \<Rightarrow> soup \<Rightarrow> loc option" where
  "find_tag_class name cls sp = soup_find (\<lambda>n. is_tag name n \<and> has_class (u cls) n) sp"

definition find_parent :: "(node \<Rightarrow> bool) \<Rightarrow> loc \<Rightarrow> loc option" where
  "find_parent P l =
     (case dropWhile (\<lambda>p. \<not> P (fst p)) (snd l) of [] \<Rightarrow> None | p # ps \<Rightarrow> Some (p, ps))"

definition find_next_sibling :: "(node \<Rightarrow> bool) \<Rightarrow> loc \<Rightarrow> loc option" where
  "find_next_sibling P l =
     (case dropWhile (\<lambda>n. \<not> P n) (snd (fst l)) of [] \<Rightarrow> None | n # ns \<Rightarrow> Some ((n, ns), snd l))"

text \<open>\<open>get_text(separator, strip)\<close>: the strings below the element in document order,
  each stripped and the empty ones left out when \<open>strip\<close> is set, joined by the separator.\<close>

fun all_strings :: "node \<Rightarrow> pystr list" where
  "all_strings (NavigableString t) = [t]"
| "all_strings (Tag nm ats cs) = concat (map all_strings cs)"

definition get_text :: "pystr \<Rightarrow> bool \<Rightarrow> node \<Rightarrow> pystr" where
  "get_text sep strip n =
     py_join sep (if strip then filter (\<lambda>s. s \<noteq> []) (map py_strip (all_strings n))
                  else all_strings n)"

section \<open>The paired pattern\<close>

text \<open>
  The two regular expressions of the source have one shape,
  \<open>L1\s*:\s*(.*?)\s*L2\s*:\s*(.*)\<close>, searched with \<open>re.IGNORECASE\<close>. The matcher below is
  \<open>re.search\<close> for that shape: the leftmost start at which the pattern matches, the shortest
  first group for that start, a dot that matches everything but a line feed.
\<close>

definition ascii_lower :: "nat \<Rightarrow> nat" where
  "ascii_lower c = (if 65 \<le> c \<and> c \<le> 90 then c + 32 else c)"

text \<open>A literal ASCII character \<open>p\<close> of the pattern against a character \<open>c\<close> of the text,
  ignoring case: besides the two ASCII cases, \<open>i\<close> also matches U+0130 and U+0131, \<open>s\<close>
  matches U+017F and \<open>k\<close> matches U+212A.\<close>

definition ci_char :: "nat \<Rightarrow> nat \<Rightarrow> bool" where
  "ci_char p c =
     (let lo = ascii_lower p
      in ascii_lower c = lo \<or> (lo = 105 \<and> (c = 304 \<or> c = 305)) \<or> (lo = 115 \<and> c = 383)
         \<or> (lo = 107 \<and> c = 8490))"

fun literal_ci :: "pystr \<Rightarrow> pystr \<Rightarrow> pystr option" where
  "literal_ci [] s = Some s"
| "literal_ci (p # ps) [] = None"
| "literal_ci (p # ps) (c # cs) = (if ci_char p c then literal_ci ps cs else None)"

text \<open>\<open>L\s*:\s*\<close> at the start of \<open>s\<close>; the result is what follows.\<close>

definition label_colon :: "pystr \<Rightarrow> pystr \<Rightarrow> pystr option" where
  "label_colon L s =
     (case literal_ci L s of
        None \<Rightarrow> None
      | Some r \<Rightarrow>
          (case py_lstrip r of
             [] \<Rightarrow> None
           | c # cs \<Rightarrow> if c = 58 then Some (py_lstrip cs) else None))"

text \<open>\<open>\s*L2\s*:\s*(.*)\<close> at the start of \<open>s\<close>; the result is the second group.\<close>

definition tail_match :: "pystr \<Rightarrow> pystr \<Rightarrow> pystr option" where
  "tail_match L2 s =
     (case label_colon L2 (py_lstrip s) of
        None \<Rightarrow> None
      | Some r \<Rightarrow> Some (takeWhile (\<lambda>c. c \<noteq> 10) r))"

fun lazy_group :: "pystr \<Rightarrow> pystr \<Rightarrow> pystr \<Rightarrow> (pystr \<times> pystr) option" where
  "lazy_group L2 acc [] =
     (case tail_match L2 [] of Some g2 \<Rightarrow> Some (acc, g2) | None \<Rightarrow> None)"
| "lazy_group L2 acc (c # cs) =
     (case tail_match L2 (c # cs) of
        Some g2 \<Rightarrow> Some (acc, g2)
      | None \<Rightarrow> if c = 10 then None else lazy_group L2 (acc @ [c]) cs)"

definition match_at :: "pystr \<Rightarrow> pystr \<Rightarrow> pystr \<Rightarrow> (pystr \<times> pystr) option" where
  "match_at L1 L2 s =
     (case label_colon L1 s of None \<Rightarrow> None | Some r \<Rightarrow> lazy_group L2 [] r)"

fun re_search_pair :: "pystr \<Rightarrow> pystr \<Rightarrow> pystr \<Rightarrow> (pystr \<times> pystr) option" where
  "re_search_pair L1 L2 [] = match_at L1 L2 []"
| "re_search_pair L1 L2 (c # cs) =
     (case match_at L1 L2 (c # cs) of
        Some g \<Rightarrow> Some g
      | None \<Rightarrow> re_search_pair L1 L2 cs)"

section \<open>The extraction: \<open>parse_html_data\<close>\<close>

datatype content =
    Mapping "(pystr, pystr) pydict"
  | Table "(pystr, pystr) pydict list"
  | Scalar pystr

text \<open>The helper \<open>clean_text\<close> of the source.\<close>

definition clean_text :: "pystr \<Rightarrow> pystr" where
  "clean_text text =
     (if text \<noteq> [] then py_strip (map (\<lambda>c. if c = 160 then 32 else c) text) else [])"

subsection \<open>Case details\<close>

text \<open>\<open>soup.find("label", string=re.compile(phrase))\<close>, and the row of the label:
  \<open>find_parent("span", class_="case_details_table")\<close>, when both exist.\<close>

definition find_label :: "pystr \<Rightarrow> soup \<Rightarrow> loc option" where
  "find_label phrase sp = soup_find (\<lambda>n. is_tag ''label'' n \<and> string_matches phrase n) sp"

definition label_row :: "pystr \<Rightarrow> soup \<Rightarrow> node option" where
  "label_row phrase sp =
     (case find_label phrase sp of
        None \<Rightarrow> None
      | Some lbl \<Rightarrow>
          (case find_parent (\<lambda>n. is_tag ''span'' n \<and> has_class (u ''case_details_table'') n) lbl of
             None \<Rightarrow> None
           | Some row \<Rightarrow> Some (elem row)))"

text \<open>The blocks of "Case Type" and "CNR Number": the text after the first colon.\<close>

definition colon_field ::
  "pystr \<Rightarrow> soup \<Rightarrow> (pystr, pystr) pydict \<Rightarrow> (pystr, pystr) pydict" where
  "colon_field key sp case_details =
     (case label_row key sp of
        None \<Rightarrow> case_details
      | Some row \<Rightarrow>
          (let text = get_text (u '' '') True row
           in if 58 \<in> set text
              then dict_set case_details key (py_strip (after_first_colon text))
              else case_details))"

text \<open>The blocks of "Filing Number" and "Registration Number": the paired pattern first,
  the whole text under the key \<open>K\<close> otherwise.\<close>

definition paired_field ::
  "pystr \<Rightarrow> pystr \<Rightarrow> pystr \<Rightarrow> soup \<Rightarrow> (pystr, pystr) pydict \<Rightarrow> (pystr, pystr) pydict" where
  "paired_field L1 L2 K sp case_details =
     (case label_row L1 sp of
        None \<Rightarrow> case_details
      | Some row \<Rightarrow>
          (let full_text = get_text (u '' '') True row
           in case re_search_pair L1 L2 full_text of
                Some (g1, g2) \<Rightarrow> dict_set (dict_set case_details L1 (py_strip g1)) L2 (py_strip g2)
              | None \<Rightarrow> dict_set case_details K full_text))"

definition case_details_section :: "soup \<Rightarrow> (pystr, pystr) pydict" where
  "case_details_section sp =
     (let case_details = [];
          case_details = colon_field (u ''Case Type'') sp case_details;
          case_details = paired_field (u ''Filing Number'') (u ''Filing Date'')
                           (u ''Filing Details'') sp case_details;
          case_details = paired_field (u ''Registration Number'') (u ''Registration Date'')
                           (u ''Registration Details'') sp case_details;
          case_details = colon_field (u ''CNR Number'') sp case_details
      in case_details)"

subsection \<open>Status fields\<close>

fun status_loop :: "node list \<Rightarrow> (pystr, pystr) pydict \<Rightarrow> (pystr, pystr) pydict" where
  "status_loop [] case_status = case_status"
| "status_loop (lbl # labels) case_status =
     (let strongs = map elem (find_all (is_tag ''strong'') lbl)
      in status_loop labels
           (if length strongs \<ge> 2
            then dict_set case_status (clean_text (get_text [] False (strongs ! 0)))
                   (py_strip (lstrip_colon (clean_text (get_text [] False (strongs ! 1)))))
            else case_status))"

definition find_status_div :: "soup \<Rightarrow> loc option" where
  "find_status_div sp =
     soup_find (\<lambda>n. is_tag ''div'' n \<and> style_has (u ''background-color:#FBF6D9'') n) sp"

definition case_status_section :: "soup \<Rightarrow> (pystr, pystr) pydict" where
  "case_status_section sp =
     (case find_status_div sp of
        None \<Rightarrow> []
      | Some status_div \<Rightarrow> status_loop (map elem (find_all (is_tag ''label'') (elem status_div))) [])"

subsection \<open>Petitioner and respondent\<close>

definition party_section :: "string \<Rightarrow> soup \<Rightarrow> pystr option" where
  "party_section cls sp =
     (case find_tag_class ''span'' cls sp of
        None \<Rightarrow> None
      | Some e \<Rightarrow> Some (clean_text (get_text [10] True (elem e))))"

subsection \<open>Tables\<close>

text \<open>\<open>[c.get_text(separator=sep, strip=True) for c in e.find_all(name)]\<close>\<close>

definition cell_texts :: "string \<Rightarrow> pystr \<Rightarrow> node \<Rightarrow> pystr list" where
  "cell_texts name sep e = map (\<lambda>c. get_text sep True (elem c)) (find_all (is_tag name) e)"

text \<open>The loop over the rows of a table: a row whose number of cells is the number of
  headers is appended as \<open>dict(zip(headers, cols))\<close>.\<close>

fun rows_loop ::
  "pystr list \<Rightarrow> pystr list list \<Rightarrow> (pystr, pystr) pydict list \<Rightarrow> (pystr, pystr) pydict list" where
  "rows_loop headers [] data = data"
| "rows_loop headers (cols # rest) data =
     rows_loop headers rest
       (if length cols = length headers then data @ [py_dict (zip headers cols)] else data)"

definition table_rows :: "node \<Rightarrow> node list" where
  "table_rows t = map elem (find_all (is_tag ''tr'') t)"

definition acts_section :: "soup \<Rightarrow> (pystr, pystr) pydict list" where
  "acts_section sp =
     (case find_tag_class ''table'' ''Acts_table'' sp of
        None \<Rightarrow> []
      | Some acts_table \<Rightarrow>
          (let headers = cell_texts ''th'' [] (elem acts_table)
           in rows_loop headers (map (cell_texts ''td'' []) (drop 1 (table_rows (elem acts_table)))) []))"

definition ia_section :: "soup \<Rightarrow> (pystr, pystr) pydict list" where
  "ia_section sp =
     (case find_tag_class ''table'' ''IAheading'' sp of
        None \<Rightarrow> []
      | Some ia_table \<Rightarrow>
          (let headers = cell_texts ''th'' [] (elem ia_table)
           in rows_loop headers
                (map (cell_texts ''td'' (u '' '')) (drop 1 (table_rows (elem ia_table)))) []))"

definition orders_section :: "soup \<Rightarrow> (pystr, pystr) pydict list" where
  "orders_section sp =
     (case find_tag_class ''table'' ''order_table'' sp of
        None \<Rightarrow> []
      | Some order_table \<Rightarrow>
          (case table_rows (elem order_table) of
             [] \<Rightarrow> []
           | header_tr # rest \<Rightarrow>
               (let headers = cell_texts ''td'' [] header_tr
                in rows_loop headers (map (cell_texts ''td'' []) rest) [])))"

subsection \<open>Key and value lists\<close>

text \<open>The loop shared by the subordinate court and the FIR span: each span of width 150px
  is a key, the next \<open>label\<close> sibling its value.\<close>

fun kv_loop :: "loc list \<Rightarrow> (pystr, pystr) pydict \<Rightarrow> (pystr, pystr) pydict" where
  "kv_loop [] d = d"
| "kv_loop (k # keys) d =
     (let key_text = clean_text (get_text [] False (elem k))
      in case find_next_sibling (is_tag ''label'') k of
           None \<Rightarrow> kv_loop keys d
         | Some v_label \<Rightarrow>
             kv_loop keys
               (dict_set d key_text
                  (py_strip (lstrip_colon (clean_text (get_text [] False (elem v_label)))))))"

definition width_keys :: "node \<Rightarrow> loc list" where
  "width_keys e = find_all (\<lambda>n. is_tag ''span'' n \<and> style_has (u ''width:150px'') n) e"

definition sub_court_section :: "soup \<Rightarrow> (pystr, pystr) pydict" where
  "sub_court_section sp =
     (case find_tag_class ''span'' ''Lower_court_table'' sp of
        None \<Rightarrow> []
      | Some sub_court_elem \<Rightarrow> kv_loop (width_keys (elem sub_court_elem)) [])"

text \<open>The headers of the FIR table: its \<open>th\<close> cells, and when there is none the
  \<open>td\<close> cells of its first row.\<close>

definition fir_headers :: "node \<Rightarrow> pystr list" where
  "fir_headers fir_table =
     (let headers = cell_texts ''th'' [] fir_table;
          rows = table_rows fir_table
      in case rows of
           [] \<Rightarrow> headers
         | r # rs \<Rightarrow> if headers = [] then cell_texts ''td'' [] r else headers)"

definition fir_section :: "soup \<Rightarrow> (pystr, pystr) pydict list" where
  "fir_section sp =
     (case find_tag_class ''table'' ''FIR_details_table'' sp of
        Some fir_table \<Rightarrow>
          (let headers = fir_headers (elem fir_table);
               rows = table_rows (elem fir_table)
           in if headers \<noteq> []
              then rows_loop headers (map (cell_texts ''td'' []) (drop 1 rows)) []
              else [])
      | None \<Rightarrow>
          (case find_tag_class ''span'' ''FIR_details_table'' sp of
             None \<Rightarrow> []
           | Some fir_span \<Rightarrow>
               (let fir_info = kv_loop (width_keys (elem fir_span)) []
                in if fir_info \<noteq> [] then [fir_info] else [])))"

subsection \<open>Category details\<close>

fun cat_loop :: "pystr list list \<Rightarrow> (pystr, pystr) pydict \<Rightarrow> (pystr, pystr) pydict" where
  "cat_loop [] cat_data = cat_data"
| "cat_loop (cols # rest) cat_data =
     cat_loop rest (if length cols \<ge> 2 then dict_set cat_data (cols ! 0) (cols ! 1) else cat_data)"

definition find_cat_header :: "soup \<Rightarrow> loc option" where
  "find_cat_header sp =
     soup_find (\<lambda>n. is_tag ''h2'' n \<and> string_matches (u ''Category Details'') n) sp"

definition category_section :: "soup \<Rightarrow> (pystr, pystr) pydict" where
  "category_section sp =
     (case find_cat_header sp of
        None \<Rightarrow> []
      | Some cat_header \<Rightarrow>
          (case find_parent (is_tag ''table'') cat_header of
             None \<Rightarrow> []
           | Some header_table \<Rightarrow>
               (case find_next_sibling (is_tag ''table'') header_table of
                  None \<Rightarrow> []
                | Some data_table \<Rightarrow>
                    cat_loop (map (cell_texts ''td'' []) (table_rows (elem data_table))) [])))"

subsection \<open>The whole record\<close>

type_synonym record_sections = "(pystr, content) pydict"

definition parse_html_data :: "soup \<Rightarrow> record_sections" where
  "parse_html_data sp =
     (let parsed_data = [];
          parsed_data = dict_set parsed_data (u ''Case Details'') (Mapping (case_details_section sp));
          parsed_data = dict_set parsed_data (u ''Case Status'') (Mapping (case_status_section sp));
          parsed_data = (case party_section ''Petitioner_Advocate_table'' sp of
                           None \<Rightarrow> parsed_data
                         | Some t \<Rightarrow> dict_set parsed_data (u ''Petitioner and Advocate'') (Scalar t));
          parsed_data = (case party_section ''Respondent_Advocate_table'' sp of
                           None \<Rightarrow> parsed_data
                         | Some t \<Rightarrow> dict_set parsed_data (u ''Respondent and Advocate'') (Scalar t));
          parsed_data = dict_set parsed_data (u ''Acts'') (Table (acts_section sp));
          parsed_data = dict_set parsed_data (u ''Subordinate Court Information'')
                          (Mapping (sub_court_section sp));
          fir_data = fir_section sp;
          parsed_data = (if fir_data \<noteq> []
                         then dict_set parsed_data (u ''FIR Details'') (Table fir_data)
                         else parsed_data);
          parsed_data = dict_set parsed_data (u ''IA Details'') (Table (ia_section sp));
          parsed_data = dict_set parsed_data (u ''Orders'') (Table (orders_section sp));
          parsed_data = dict_set parsed_data (u ''Category Details'') (Mapping (category_section sp))
      in parsed_data)"

subsection \<open>Two documents\<close>

text \<open>A result page with a case details row, a petitioner block and an Acts table whose
  second data row is short; and a result container without any of the anchors.\<close>

definition sample_filing_row :: node where
  "sample_filing_row =
     Tag ''span'' [(''class'', u ''case_details_table'')]
       [Tag ''label'' [] [NavigableString (u ''Filing Number'')],
        NavigableString (u '': 123/2020 ''),
        Tag ''label'' [] [NavigableString (u ''Filing Date'')],
        NavigableString (u '': 01-02-2020'')]"

definition sample_doc :: soup where
  "sample_doc =
     [Tag ''div'' [(''id'', u ''secondpage'')]
        [sample_filing_row,
         Tag ''span'' [(''class'', u ''Petitioner_Advocate_table'')]
           [NavigableString (u ''1) RAM'')],
         Tag ''table'' [(''class'', u ''Acts_table'')]
           [Tag ''tr'' [] [Tag ''th'' [] [NavigableString (u ''A'')],
                           Tag ''th'' [] [NavigableString (u ''B'')]],
            Tag ''tr'' [] [Tag ''td'' [] [NavigableString (u ''1'')],
                           Tag ''td'' [] [NavigableString (u ''2'')]],
            Tag ''tr'' [] [Tag ''td'' [] [NavigableString (u ''3'')]]]]]"

definition empty_result_doc :: soup where
  "empty_result_doc = [Tag ''div'' [(''id'', u ''showList'')] []]"

text \<open>A case details row with a registration number and no registration date.\<close>

definition lone_registration_row :: node where
  "lone_registration_row =
     Tag ''span'' [(''class'', u ''case_details_table'')]
       [Tag ''label'' [] [NavigableString (u ''Registration Number'')],
        NavigableString (u '': 456/2021'')]"

definition lone_registration_doc :: soup where
  "lone_registration_doc = [Tag ''div'' [(''id'', u ''secondpage'')] [lone_registration_row]]"

section \<open>The challenge loop of \<open>scrape_ecourts\<close>\<close>

subsection \<open>One pass of the validation loop\<close>

text \<open>
  What one pass of the validation loop reads from the browser. \<open>alert\<close> is the text of an
  open alert, \<open>None\<close> when \<open>driver.switch_to.alert\<close> raises because there is none.
  \<open>body_text\<close> is the visible text of the \<open>body\<close> element, \<open>None\<close> when reading it raises.
  \<open>success_elements\<close> holds, for each element that matches the success selector, the result
  of \<open>is_displayed()\<close>, \<open>None\<close> when the call raises.
\<close>

record snapshot =
  alert :: "pystr option"
  body_text :: "pystr option"
  success_elements :: "bool option list"

text \<open>The variable \<open>outcome\<close> after one pass: \<open>"success"\<close>, \<open>"error"\<close>, or still \<open>None\<close>.\<close>

datatype outcome = Success | Rejected | Pending

text \<open>\<open>str.lower()\<close>, exact on the code points below 256 (ASCII and Latin-1 letters); the
  case mapping of the code points from 256 on is not modelled, they are left as they are.\<close>

definition lower_cp :: "nat \<Rightarrow> nat" where
  "lower_cp c = (if (65 \<le> c \<and> c \<le> 90) \<or> (192 \<le> c \<and> c \<le> 222 \<and> c \<noteq> 215) then c + 32 else c)"

definition py_lower :: "pystr \<Rightarrow> pystr" where
  "py_lower s = map lower_cp s"

text \<open>\<open>any(elem.is_displayed() for elem in success_elements)\<close>: the elements are asked in
  order, up to the first that is displayed; a call that raises ends the pass.\<close>

fun any_displayed :: "bool option list \<Rightarrow> bool option" where
  "any_displayed [] = Some False"
| "any_displayed (None # es) = None"
| "any_displayed (Some True # es) = Some True"
| "any_displayed (Some False # es) = any_displayed es"

text \<open>The body of the \<open>while\<close> loop: the alert first, then the error texts, then the success
  elements, then the texts of an empty result. Both \<open>try\<close> blocks end in \<open>except: pass\<close>.\<close>

definition classify :: "snapshot \<Rightarrow> outcome" where
  "classify snap =
     (case alert snap of
        Some a \<Rightarrow> Rejected
      | None \<Rightarrow>
          (case body_text snap of
             None \<Rightarrow> Pending
           | Some t \<Rightarrow>
               (let body_text = py_lower t
                in if py_in (u ''invalid captcha'') body_text \<or> py_in (u ''wrong captcha'') body_text
                      \<or> py_in (u ''does not match'') body_text
                      \<or> py_in (u ''verification code'') body_text
                   then Rejected
                   else (case any_displayed (success_elements snap) of
                           None \<Rightarrow> Pending
                         | Some True \<Rightarrow> Success
                         | Some False \<Rightarrow>
                             if py_in (u ''record not found'') body_text
                                \<or> py_in (u ''no records found'') body_text
                             then Success
                             else Pending))))"



text \<open>The validation loop over the snapshots of the passes that fit into its 15 seconds: it
  stops at the first pass that sets \<open>outcome\<close>, and leaves it unset when the time is over.\<close>

fun validation_loop :: "snapshot list \<Rightarrow> outcome" where
  "validation_loop [] = Pending"
| "validation_loop (snap # snaps) =
     (case classify snap of Pending \<Rightarrow> validation_loop snaps | Success \<Rightarrow> Success
      | Rejected \<Rightarrow> Rejected)"

subsection \<open>One attempt\<close>

text \<open>
  What the browser, the file system and the recognition do in one attempt.
  \<open>image\<close>: waiting for the challenge image raises, or the script reports the image as
  incomplete, or as loaded. \<open>input_found\<close>: the lookup of the input field does not raise.
  \<open>screenshot\<close>: the capture raises, or returns without having written the file, or writes
  it. \<open>ocr\<close>: the text that \<open>image_to_string(Image.open(path).convert('L'))\<close> returns for an
  existing file, \<open>None\<close> when this raises. \<open>submit_ok\<close>: typing the text and clicking the
  submit button does not raise. \<open>window\<close>: the snapshots of the validation passes.
\<close>

datatype image_state = ImageRaises | ImageIncomplete | ImageLoaded

datatype screenshot_result = ShotRaises | ShotNotWritten | ShotWritten

record attempt_env =
  image :: image_state
  input_found :: bool
  screenshot :: screenshot_result
  ocr :: "pystr option"
  submit_ok :: bool
  window :: "snapshot list"

text \<open>How an attempt ends: \<open>continue\<close> because the image is not loaded, the handler of
  \<open>except Exception\<close>, \<open>continue\<close> because the cleaned text is empty, \<open>continue\<close> because the
  validation failed or timed out, or \<open>break\<close> with \<open>captcha_solved = True\<close>.\<close>

datatype attempt_result = NotLoaded | Raised | EmptyText | NotAccepted | Accepted

text \<open>\<open>re.sub(r'[^a-zA-Z0-9]', '', text)\<close>\<close>

definition is_alnum :: "nat \<Rightarrow> bool" where
  "is_alnum c = ((97 \<le> c \<and> c \<le> 122) \<or> (65 \<le> c \<and> c \<le> 90) \<or> (48 \<le> c \<and> c \<le> 57))"

definition clean_ocr :: "pystr \<Rightarrow> pystr" where
  "clean_ocr ocr_text = filter is_alnum (py_strip ocr_text)"

text \<open>
  One iteration of the \<open>for\<close> loop. The state is whether the file \<open>temp_captcha.png\<close> exists.
  The refresh click of a retry is left out: its exception is caught and printed, and it
  changes nothing of this state.
\<close>

definition run_attempt :: "attempt_env \<Rightarrow> bool \<Rightarrow> attempt_result \<times> bool" where
  "run_attempt e captcha_file =
     (case image e of
        ImageRaises \<Rightarrow> (Raised, captcha_file)
      | ImageIncomplete \<Rightarrow> (NotLoaded, captcha_file)
      | ImageLoaded \<Rightarrow>
          if \<not> input_found e then (Raised, captcha_file)
          else if screenshot e = ShotRaises then (Raised, captcha_file)
          else
            (let captcha_file = (captcha_file \<or> screenshot e = ShotWritten)
             in if \<not> captcha_file then (Raised, captcha_file)
                else
                  (case ocr e of
                     None \<Rightarrow> (Raised, captcha_file)
                   | Some ocr_text \<Rightarrow>
                       (let clean_text = clean_ocr ocr_text;
                            captcha_file = False
                        in if clean_text \<noteq> []
                           then if \<not> submit_ok e then (Raised, captcha_file)
                                else if validation_loop (window e) = Success
                                     then (Accepted, captcha_file)
                                     else (NotAccepted, captcha_file)
                           else (EmptyText, captcha_file)))))"

subsection \<open>The attempts\<close>

text \<open>\<open>for attempt in range(max_attempts)\<close> with its \<open>break\<close>. The result is
  \<open>captcha_solved\<close>, whether the capture file exists at the end, and how each attempt that
  was run ended.\<close>

fun attempts_loop ::
  "(nat \<Rightarrow> attempt_env) \<Rightarrow> nat list \<Rightarrow> bool \<Rightarrow> attempt_result list
     \<Rightarrow> bool \<times> bool \<times> attempt_result list" where
  "attempts_loop env [] captcha_file finished = (False, captcha_file, finished)"
| "attempts_loop env (attempt # rest) captcha_file finished =
     (case run_attempt (env attempt) captcha_file of
        (Accepted, captcha_file') \<Rightarrow> (True, captcha_file', finished @ [Accepted])
      | (r, captcha_file') \<Rightarrow> attempts_loop env rest captcha_file' (finished @ [r]))"

definition max_attempts :: nat where
  "max_attempts = 5"

definition resolve :: "(nat \<Rightarrow> attempt_env) \<Rightarrow> nat \<Rightarrow> bool \<Rightarrow> bool \<times> bool \<times> attempt_result list" where
  "resolve env n captcha_file = attempts_loop env [0..<n] captcha_file []"

definition captcha_solved :: "bool \<times> bool \<times> attempt_result list \<Rightarrow> bool" where
  "captcha_solved r = fst r"

definition file_left :: "bool \<times> bool \<times> attempt_result list \<Rightarrow> bool" where
  "file_left r = fst (snd r)"

definition attempts_run :: "bool \<times> bool \<times> attempt_result list \<Rightarrow> nat" where
  "attempts_run r = length (snd (snd r))"

subsection \<open>Three sessions\<close>




definition blank_ocr_env :: "nat \<Rightarrow> attempt_env" where
  "blank_ocr_env attempt =
     \<lparr>image = ImageLoaded, input_found = True, screenshot = ShotWritten,
      ocr = Some (u '' .-''), submit_ok = True, window = []\<rparr>"

definition ocr_raises_env :: "nat \<Rightarrow> attempt_env" where
  "ocr_raises_env attempt =
     \<lparr>image = ImageLoaded, input_found = True, screenshot = ShotWritten,
      ocr = None, submit_ok = True, window = []\<rparr>"

section \<open>The report: \<open>create_pdf\<close>\<close>

subsection \<open>The page and what is drawn on it\<close>

text \<open>
  What the layout needs of the FPDF page: the left margin, the height \<open>y_top\<close> at which the
  cursor stands on a new page after the page header of \<open>PDFReport\<close>, and the
  \<open>page_break_trigger\<close>, the height below which FPDF lets no cell end. Lengths are in
  millimetres and exact: the rounding of the floating point numbers is not modelled.
\<close>

record geometry =
  l_margin :: rat
  y_top :: rat
  page_break_trigger :: rat

text \<open>The page of \<open>PDFReport()\<close>: A4 in millimetres, a margin of 28.35 points on the left
  and on top, an automatic page break at twice this margin from the bottom, and a page
  header of a cell of height 10 and a line break of 10.\<close>

definition a4 :: geometry where
  "a4 = \<lparr>l_margin = 2835 / 100 * (254 / 720),
         y_top = 2835 / 100 * (254 / 720) + 20,
         page_break_trigger = 84189 / 100 * (254 / 720) - 2 * (2835 / 100 * (254 / 720))\<rparr>"

text \<open>
  A block is one thing drawn: a cell with its text (for \<open>multi_cell\<close>, one cell for each
  line) or the rectangle of a \<open>rect\<close> call, on a page, with its position, width and height.
  A width of 0 is a cell that reaches to the right margin.
\<close>

datatype block_kind =
  SectionHeader | KeyCell | ValueCell | HeaderCell | DataCell | NoRecordsRow | TextBlock | Border

record block =
  b_page :: nat
  b_kind :: block_kind
  b_x :: rat
  b_y :: rat
  b_w :: rat
  b_h :: rat

text \<open>The state of the document under construction: the number of the current page, the
  height of the cursor, the blocks drawn so far, and the texts handed to \<open>cell\<close> and
  \<open>multi_cell\<close> so far.\<close>

record pdf =
  pdf_page :: nat
  pdf_y :: rat
  blocks :: "block list"
  calls :: "(block_kind \<times> pystr) list"

definition pdf_add_page :: "geometry \<Rightarrow> pdf \<Rightarrow> pdf" where
  "pdf_add_page g st = st\<lparr>pdf_page := pdf_page st + 1, pdf_y := y_top g\<rparr>"

text \<open>One cell of FPDF: a cell that would end below the trigger goes to a new page first.
  The cursor moves down by the height of the cell.\<close>

definition draw_cell :: "geometry \<Rightarrow> block_kind \<Rightarrow> rat \<Rightarrow> rat \<Rightarrow> rat \<Rightarrow> pdf \<Rightarrow> pdf" where
  "draw_cell g kind x w h st =
     (let st = (if pdf_y st + h > page_break_trigger g then pdf_add_page g st else st)
      in st\<lparr>blocks := blocks st @ [\<lparr>b_page = pdf_page st, b_kind = kind, b_x = x, b_y = pdf_y st,
                                     b_w = w, b_h = h\<rparr>],
            pdf_y := pdf_y st + h\<rparr>)"

text \<open>\<open>pdf.cell(w, h, txt, border, 1, ...)\<close> at the left margin.\<close>

definition pdf_cell :: "geometry \<Rightarrow> block_kind \<Rightarrow> rat \<Rightarrow> rat \<Rightarrow> pystr \<Rightarrow> pdf \<Rightarrow> pdf" where
  "pdf_cell g kind w h txt st =
     draw_cell g kind (l_margin g) w h (st\<lparr>calls := calls st @ [(kind, txt)]\<rparr>)"

text \<open>
  \<open>pdf.multi_cell(w, h, txt, ...)\<close> prints the text as one cell for each line into which it
  breaks the text, and at least one. Into how many lines a text breaks in a width depends
  on the widths of the characters in the font (bold or not, and the size); this is the
  parameter \<open>wrap\<close> of the layout.
\<close>

type_synonym font = "bool \<times> nat"
type_synonym wrapper = "font \<Rightarrow> rat \<Rightarrow> pystr \<Rightarrow> nat"

definition n_lines :: "wrapper \<Rightarrow> font \<Rightarrow> rat \<Rightarrow> pystr \<Rightarrow> nat" where
  "n_lines wrap f w txt = max 1 (wrap f w txt)"

fun draw_lines :: "geometry \<Rightarrow> block_kind \<Rightarrow> rat \<Rightarrow> rat \<Rightarrow> rat \<Rightarrow> nat \<Rightarrow> pdf \<Rightarrow> pdf" where
  "draw_lines g kind x w h 0 st = st"
| "draw_lines g kind x w h (Suc n) st = draw_lines g kind x w h n (draw_cell g kind x w h st)"

definition pdf_multi_cell ::
  "geometry \<Rightarrow> wrapper \<Rightarrow> block_kind \<Rightarrow> font \<Rightarrow> rat \<Rightarrow> rat \<Rightarrow> rat \<Rightarrow> pystr \<Rightarrow> pdf \<Rightarrow> pdf" where
  "pdf_multi_cell g wrap kind f x w h txt st =
     draw_lines g kind x w h (n_lines wrap f w txt) (st\<lparr>calls := calls st @ [(kind, txt)]\<rparr>)"

definition pdf_rect :: "rat \<Rightarrow> rat \<Rightarrow> rat \<Rightarrow> rat \<Rightarrow> pdf \<Rightarrow> pdf" where
  "pdf_rect x y w h st =
     st\<lparr>blocks := blocks st @ [\<lparr>b_page = pdf_page st, b_kind = Border, b_x = x, b_y = y,
                                 b_w = w, b_h = h\<rparr>]\<rparr>"

definition pdf_set_y :: "rat \<Rightarrow> pdf \<Rightarrow> pdf" where
  "pdf_set_y y st = st\<lparr>pdf_y := y\<rparr>"

definition pdf_ln :: "rat \<Rightarrow> pdf \<Rightarrow> pdf" where
  "pdf_ln h st = st\<lparr>pdf_y := pdf_y st + h\<rparr>"

subsection \<open>The content kinds\<close>

text \<open>\<open>s.encode('latin-1', 'replace').decode('latin-1')\<close>: a character that Latin-1 does not
  have becomes a question mark.\<close>

definition latin1_replace :: "pystr \<Rightarrow> pystr" where
  "latin1_replace s = map (\<lambda>c. if c < 256 then c else 63) s"

definition page_width :: rat where
  "page_width = 190"

text \<open>
  One row of a key and value table. \<open>pdf.get_x()\<close> is the left margin wherever the source
  reads it: every call before it (\<open>add_page\<close>, a cell with a line break, \<open>multi_cell\<close>,
  \<open>set_xy(x_start, ...)\<close>, \<open>ln\<close>) leaves the cursor there.
\<close>

definition render_kv :: "geometry \<Rightarrow> wrapper \<Rightarrow> pystr \<times> pystr \<Rightarrow> pdf \<Rightarrow> pdf" where
  "render_kv g wrap kv st =
     (let w_key = 60;
          w_val = page_width - w_key;
          safe_k = latin1_replace (fst kv);
          safe_v = latin1_replace (snd kv);
          st = (if pdf_y st > 260 then pdf_add_page g st else st);
          x_start = l_margin g;
          y_start = pdf_y st;
          st = pdf_multi_cell g wrap KeyCell (True, 10) x_start w_key 6 safe_k st;
          y_end_k = pdf_y st;
          st = pdf_set_y y_start st;
          st = pdf_multi_cell g wrap ValueCell (False, 10) (x_start + w_key) w_val 6 safe_v st;
          y_end_v = pdf_y st;
          row_height = max (y_end_k - y_start) (y_end_v - y_start);
          st = pdf_rect x_start y_start w_key row_height st;
          st = pdf_rect (x_start + w_key) y_start w_val row_height st
      in pdf_set_y (y_start + row_height) st)"

fun render_mapping :: "geometry \<Rightarrow> wrapper \<Rightarrow> (pystr, pystr) pydict \<Rightarrow> pdf \<Rightarrow> pdf" where
  "render_mapping g wrap [] st = st"
| "render_mapping g wrap (kv # content) st = render_mapping g wrap content (render_kv g wrap kv st)"

text \<open>The loop over the columns of a table row, \<open>for i, h in enumerate(headers)\<close>, on the
  texts of its cells; it collects the heights \<open>ys\<close> at which the cells end.\<close>

fun columns_loop ::
  "geometry \<Rightarrow> wrapper \<Rightarrow> block_kind \<Rightarrow> font \<Rightarrow> rat \<Rightarrow> rat \<Rightarrow> rat \<Rightarrow> nat \<Rightarrow> pystr list
     \<Rightarrow> pdf \<Rightarrow> rat list \<Rightarrow> pdf \<times> rat list" where
  "columns_loop g wrap kind f x_start y_start col_width i [] st ys = (st, ys)"
| "columns_loop g wrap kind f x_start y_start col_width i (txt # txts) st ys =
     (let st = pdf_set_y y_start st;
          st = pdf_multi_cell g wrap kind f (x_start + of_nat i * col_width) col_width 6 txt st
      in columns_loop g wrap kind f x_start y_start col_width (Suc i) txts st (ys @ [pdf_y st]))"

text \<open>\<open>for i in range(num_cols): pdf.rect(...)\<close>\<close>

fun rects_loop :: "rat \<Rightarrow> rat \<Rightarrow> rat \<Rightarrow> rat \<Rightarrow> nat list \<Rightarrow> pdf \<Rightarrow> pdf" where
  "rects_loop x_start y_start col_width row_height [] st = st"
| "rects_loop x_start y_start col_width row_height (i # is) st =
     rects_loop x_start y_start col_width row_height is
       (pdf_rect (x_start + of_nat i * col_width) y_start col_width row_height st)"

text \<open>\<open>max(ys)\<close>; the source calls it on a list with one height for each column, under
  \<open>num_cols > 0\<close>.\<close>

fun py_max :: "rat list \<Rightarrow> rat" where
  "py_max [] = 0"
| "py_max [y] = y"
| "py_max (y # y' # ys) = max y (py_max (y' # ys))"

text \<open>A row of a table, the header row or a data row, on the texts of its cells.\<close>

definition render_row ::
  "geometry \<Rightarrow> wrapper \<Rightarrow> block_kind \<Rightarrow> font \<Rightarrow> rat \<Rightarrow> pystr list \<Rightarrow> pdf \<Rightarrow> pdf" where
  "render_row g wrap kind f col_width txts st =
     (let st = (if pdf_y st > 260 then pdf_add_page g st else st);
          x_start = l_margin g;
          y_start = pdf_y st;
          (st, ys) = columns_loop g wrap kind f x_start y_start col_width 0 txts st [];
          row_height = py_max ys - y_start;
          st = rects_loop x_start y_start col_width row_height [0..<length txts] st
      in pdf_set_y (y_start + row_height) st)"

text \<open>The texts of the cells of a data row: \<open>row.get(h, "")\<close> for each header, made safe.\<close>

definition row_texts :: "pystr list \<Rightarrow> (pystr, pystr) pydict \<Rightarrow> pystr list" where
  "row_texts headers row =
     map (\<lambda>h. latin1_replace (case dict_get row h of None \<Rightarrow> [] | Some val \<Rightarrow> val)) headers"

fun render_data_rows ::
  "geometry \<Rightarrow> wrapper \<Rightarrow> rat \<Rightarrow> pystr list \<Rightarrow> (pystr, pystr) pydict list \<Rightarrow> pdf \<Rightarrow> pdf" where
  "render_data_rows g wrap col_width headers [] st = st"
| "render_data_rows g wrap col_width headers (row # content) st =
     render_data_rows g wrap col_width headers content
       (render_row g wrap DataCell (False, 9) col_width (row_texts headers row) st)"

definition render_table :: "geometry \<Rightarrow> wrapper \<Rightarrow> (pystr, pystr) pydict list \<Rightarrow> pdf \<Rightarrow> pdf" where
  "render_table g wrap content st =
     (case content of
        [] \<Rightarrow> pdf_cell g NoRecordsRow 0 6 (u ''No records found.'') st
      | first # others \<Rightarrow>
          (let headers = dict_keys first;
               num_cols = length headers
           in if num_cols > 0
              then (let col_width = page_width / of_nat num_cols;
                        st = render_row g wrap HeaderCell (True, 10) col_width
                               (map latin1_replace headers) st
                    in render_data_rows g wrap col_width headers content st)
              else st))"

definition render_section :: "geometry \<Rightarrow> wrapper \<Rightarrow> pystr \<times> content \<Rightarrow> pdf \<Rightarrow> pdf" where
  "render_section g wrap sc st =
     (let st = (if pdf_y st > 250 then pdf_add_page g st else st);
          st = pdf_cell g SectionHeader 0 8 (fst sc) st;
          st = (case snd sc of
                  Mapping content \<Rightarrow> render_mapping g wrap content st
                | Table content \<Rightarrow> render_table g wrap content st
                | Scalar content \<Rightarrow>
                    pdf_multi_cell g wrap TextBlock (False, 10) (l_margin g) 0 6
                      (latin1_replace content) st)
      in pdf_ln 5 st)"

fun render_sections :: "geometry \<Rightarrow> wrapper \<Rightarrow> record_sections \<Rightarrow> pdf \<Rightarrow> pdf" where
  "render_sections g wrap [] st = st"
| "render_sections g wrap (sc # data) st = render_sections g wrap data (render_section g wrap sc st)"

text \<open>The layout of a record: the first page, then the sections in the order of the
  dictionary.\<close>

definition new_pdf :: pdf where
  "new_pdf = \<lparr>pdf_page = 0, pdf_y = 0, blocks = [], calls = []\<rparr>"

definition layout :: "geometry \<Rightarrow> wrapper \<Rightarrow> record_sections \<Rightarrow> pdf" where
  "layout g wrap data = render_sections g wrap data (pdf_add_page g new_pdf)"

text \<open>
  \<open>pdf.output(dest='S')\<close> encodes the pages as Latin-1 and raises \<open>UnicodeEncodeError\<close> when
  a text on a page has a character that Latin-1 does not have. \<open>create_pdf\<close> is called with
  the dictionary of the sections; its branch for an argument that is no dictionary is not
  modelled.
\<close>

datatype error = UnicodeEncodeError

definition encodable :: "pystr \<Rightarrow> bool" where
  "encodable s = list_all (\<lambda>c. c < 256) s"

definition create_pdf :: "geometry \<Rightarrow> wrapper \<Rightarrow> record_sections \<Rightarrow> error + pdf" where
  "create_pdf g wrap data =
     (let st = layout g wrap data
      in if list_all (\<lambda>call. encodable (snd call)) (calls st) then Inr st
         else Inl UnicodeEncodeError)"

subsection \<open>A record and a measure of lines\<close>

text \<open>The record of the round trip of the specification, and a measure that breaks a text
  after every 40 characters.\<close>

definition round_trip_record :: record_sections where
  "round_trip_record =
     [(u ''Case Details'', Mapping [(u ''CNR Number'', u ''ABC123'')]),
      (u ''Orders'', Table [])]"

definition wrap40 :: wrapper where
  "wrap40 f w txt = (length txt + 39) div 40"

subsection \<open>The texts of a record, in the words of the specification\<close>

text \<open>
  The texts that a section is to print, each with the kind of its block: the name of the
  section; for a Mapping the key and the value of each entry; for an empty Table the
  placeholder alone; for another Table the keys of its first entry as the header row (none
  at all when the first entry has no key), then for every entry one cell for each of these
  keys, empty where the entry lacks the key; for a text the text. Everything but the name
  of the section is made safe for Latin-1.
\<close>

fun section_texts :: "pystr \<times> content \<Rightarrow> (block_kind \<times> pystr) list" where
  "section_texts (name, Mapping d) =
     (SectionHeader, name)
     # concat (map (\<lambda>kv. [(KeyCell, latin1_replace (fst kv)), (ValueCell, latin1_replace (snd kv))]) d)"
| "section_texts (name, Table []) =
     [(SectionHeader, name), (NoRecordsRow, u ''No records found.'')]"
| "section_texts (name, Table (first # others)) =
     (SectionHeader, name)
     # (if dict_keys first = [] then []
        else map (\<lambda>h. (HeaderCell, latin1_replace h)) (dict_keys first)
             @ concat (map (\<lambda>row. map (\<lambda>h. (DataCell,
                              latin1_replace (case dict_get row h of None \<Rightarrow> [] | Some val \<Rightarrow> val)))
                            (dict_keys first))
                         (first # others)))"
| "section_texts (name, Scalar s) = [(SectionHeader, name), (TextBlock, latin1_replace s)]"

text \<open>A record with a character outside Latin-1 (the rupee sign), and a table whose second
  entry lacks the key \<open>A\<close> of the first and has a key \<open>C\<close> of its own.\<close>

definition rupee_record :: record_sections where
  "rupee_record = [(u ''Case Details'', Mapping [(u ''Fee'', [8377, 53, 48])])]"

definition ragged_table :: "(pystr, pystr) pydict list" where
  "ragged_table =
     [[(u ''A'', u ''1''), (u ''B'', u ''2'')],
      [(u ''B'', u ''x''), (u ''C'', u ''y'')]]"

subsection \<open>Bounds and heights\<close>

text \<open>
  The rectangle of a block reaches from \<open>block_top\<close> to \<open>block_bottom\<close> (a rectangle may be
  drawn with a negative height). It is within the printable bounds of its page, in a
  document of \<open>n\<close> pages, when its page is one of the pages, it lies between the cursor
  height of a new page and the page break trigger, and between the left margin and the
  left margin plus the \<open>page_width\<close> of the source.
\<close>

definition block_top :: "block \<Rightarrow> rat" where
  "block_top b = min (b_y b) (b_y b + b_h b)"

definition block_bottom :: "block \<Rightarrow> rat" where
  "block_bottom b = max (b_y b) (b_y b + b_h b)"

definition in_printable :: "geometry \<Rightarrow> nat \<Rightarrow> block \<Rightarrow> bool" where
  "in_printable g n b \<longleftrightarrow>
     1 \<le> b_page b \<and> b_page b \<le> n
     \<and> y_top g \<le> block_top b \<and> block_bottom b \<le> page_break_trigger g
     \<and> l_margin g \<le> b_x b \<and> b_x b + b_w b \<le> l_margin g + page_width"

text \<open>All blocks drawn so far are within the bounds of their pages; the cursor is on a
  page and not above its top (\<open>on_page\<close>), and not below the trigger either (\<open>in_page\<close>).\<close>

definition all_printable :: "geometry \<Rightarrow> pdf \<Rightarrow> bool" where
  "all_printable g st \<longleftrightarrow> list_all (in_printable g (pdf_page st)) (blocks st)"

definition on_page :: "geometry \<Rightarrow> pdf \<Rightarrow> bool" where
  "on_page g st \<longleftrightarrow> 1 \<le> pdf_page st \<and> y_top g \<le> pdf_y st \<and> all_printable g st"

definition in_page :: "geometry \<Rightarrow> pdf \<Rightarrow> bool" where
  "in_page g st \<longleftrightarrow> on_page g st \<and> pdf_y st \<le> page_break_trigger g"

text \<open>The rendered height of a row of a Mapping, the taller of its two wrapped cells, and
  of a Mapping section: its header and its rows.\<close>

definition kv_height :: "wrapper \<Rightarrow> pystr \<times> pystr \<Rightarrow> rat" where
  "kv_height wrap kv =
     6 * of_nat (max (n_lines wrap (True, 10) 60 (latin1_replace (fst kv)))
                     (n_lines wrap (False, 10) (page_width - 60) (latin1_replace (snd kv))))"

definition mapping_height :: "wrapper \<Rightarrow> (pystr, pystr) pydict \<Rightarrow> rat" where
  "mapping_height wrap d = 8 + sum_list (map (kv_height wrap) d)"

text \<open>A Mapping of fifty entries.\<close>

definition fifty_rows :: "(pystr, pystr) pydict" where
  "fifty_rows = map (\<lambda>i. (u ''Key'', u ''value'')) [0..<50]"

section \<open>The request handler: \<open>handle_scrape_request\<close>\<close>
















section \<open>Properties of the extraction\<close>

subsection \<open>Strings and dictionaries\<close>

lemma u_eq_iff: "u a = u b \<longleftrightarrow> a = b"
  by (simp add: u_def inj_map_eq_map inj_of_char)


lemma dict_get_set: "dict_get (dict_set d k v) k' = (if k' = k then Some v else dict_get d k')"
  by (induction d) (auto simp: dict_get_def)

lemma header_keys_distinct: "distinct hs \<Longrightarrow> header_keys hs = hs"
  by (induction hs) (auto simp: filter_id_conv)

lemma set_header_keys: "set (header_keys hs) = set hs"
  by (induction hs) auto






subsection \<open>The record as a list of sections\<close>

lemma parse_list:
  "parse_html_data sp =
     [(u ''Case Details'', Mapping (case_details_section sp)),
      (u ''Case Status'', Mapping (case_status_section sp))]
     @ (case party_section ''Petitioner_Advocate_table'' sp of None \<Rightarrow> []
        | Some t \<Rightarrow> [(u ''Petitioner and Advocate'', Scalar t)])
     @ (case party_section ''Respondent_Advocate_table'' sp of None \<Rightarrow> []
        | Some t \<Rightarrow> [(u ''Respondent and Advocate'', Scalar t)])
     @ [(u ''Acts'', Table (acts_section sp)),
        (u ''Subordinate Court Information'', Mapping (sub_court_section sp))]
     @ (if fir_section sp = [] then [] else [(u ''FIR Details'', Table (fir_section sp))])
     @ [(u ''IA Details'', Table (ia_section sp)),
        (u ''Orders'', Table (orders_section sp)),
        (u ''Category Details'', Mapping (category_section sp))]"
  by (cases "party_section ''Petitioner_Advocate_table'' sp";
      cases "party_section ''Respondent_Advocate_table'' sp";
      cases "fir_section sp = []";
      simp add: parse_html_data_def Let_def u_eq_iff)


lemmas bs4_defs = soup_find_def find_tag_class_def find_label_def find_status_div_def
  find_cat_header_def elem_def has_class_def style_has_def string_matches_def find_all_def
  find_parent_def find_next_sibling_def get_text_def cell_texts_def table_rows_def

lemmas str_defs = u_def py_isspace_def py_strip_def py_lstrip_def lstrip_colon_def
  after_first_colon_def clean_text_def

lemma empty_doc_parse:
  "parse_html_data empty_result_doc =
     [(u ''Case Details'', Mapping []), (u ''Case Status'', Mapping []), (u ''Acts'', Table []),
      (u ''Subordinate Court Information'', Mapping []), (u ''IA Details'', Table []),
      (u ''Orders'', Table []), (u ''Category Details'', Mapping [])]"
  unfolding parse_list
  by (simp add: empty_result_doc_def bs4_defs party_section_def case_details_section_def
      colon_field_def paired_field_def label_row_def case_status_section_def acts_section_def
      sub_court_section_def fir_section_def ia_section_def orders_section_def category_section_def)


lemma dict_keys_Nil: "dict_keys [] = []" by (simp add: dict_keys_def)
lemma dict_get_Nil: "dict_get [] k = None" by (simp add: dict_get_def)

lemma case_details_absent:
  "find_label (u ''Case Type'') sp = None \<Longrightarrow> find_label (u ''Filing Number'') sp = None \<Longrightarrow>
   find_label (u ''Registration Number'') sp = None \<Longrightarrow> find_label (u ''CNR Number'') sp = None \<Longrightarrow>
   case_details_section sp = []"
  by (simp add: case_details_section_def colon_field_def paired_field_def label_row_def)

lemma party_None: "party_section cls sp = None \<longleftrightarrow> find_tag_class ''span'' cls sp = None"
  by (simp add: party_section_def split: option.splits)

lemma fir_absent:
  "find_tag_class ''table'' ''FIR_details_table'' sp = None \<Longrightarrow>
   find_tag_class ''span'' ''FIR_details_table'' sp = None \<Longrightarrow> fir_section sp = []"
  by (simp add: fir_section_def)

text \<open>
  Claim C1, as the code has it. For every document the extraction returns the sections
  Case Details, Case Status, Acts, Subordinate Court Information, IA Details, Orders and
  Category Details, in this order, and each of them is an empty Mapping or Table when its
  anchor is absent from the document. The sections Petitioner and Advocate and Respondent
  and Advocate are in the result exactly when their anchor element is found, and FIR
  Details exactly when at least one FIR row was extracted: a missing anchor leaves the
  section out instead of binding it to an empty value. The function is total: no missing
  anchor is an error.
\<close>

theorem extraction_sections:
  "dict_keys (parse_html_data sp) =
     [u ''Case Details'', u ''Case Status'']
     @ (if find_tag_class ''span'' ''Petitioner_Advocate_table'' sp = None then []
        else [u ''Petitioner and Advocate''])
     @ (if find_tag_class ''span'' ''Respondent_Advocate_table'' sp = None then []
        else [u ''Respondent and Advocate''])
     @ [u ''Acts'', u ''Subordinate Court Information'']
     @ (if fir_section sp = [] then [] else [u ''FIR Details''])
     @ [u ''IA Details'', u ''Orders'', u ''Category Details'']
   \<and> (find_label (u ''Case Type'') sp = None \<and> find_label (u ''Filing Number'') sp = None
        \<and> find_label (u ''Registration Number'') sp = None
        \<and> find_label (u ''CNR Number'') sp = None
      \<longrightarrow> dict_get (parse_html_data sp) (u ''Case Details'') = Some (Mapping []))
   \<and> (find_status_div sp = None
      \<longrightarrow> dict_get (parse_html_data sp) (u ''Case Status'') = Some (Mapping []))
   \<and> (find_tag_class ''table'' ''Acts_table'' sp = None
      \<longrightarrow> dict_get (parse_html_data sp) (u ''Acts'') = Some (Table []))
   \<and> (find_tag_class ''span'' ''Lower_court_table'' sp = None
      \<longrightarrow> dict_get (parse_html_data sp) (u ''Subordinate Court Information'') = Some (Mapping []))
   \<and> (find_tag_class ''table'' ''IAheading'' sp = None
      \<longrightarrow> dict_get (parse_html_data sp) (u ''IA Details'') = Some (Table []))
   \<and> (find_tag_class ''table'' ''order_table'' sp = None
      \<longrightarrow> dict_get (parse_html_data sp) (u ''Orders'') = Some (Table []))
   \<and> (find_cat_header sp = None
      \<longrightarrow> dict_get (parse_html_data sp) (u ''Category Details'') = Some (Mapping []))
   \<and> (find_tag_class ''span'' ''Petitioner_Advocate_table'' sp = None
      \<longrightarrow> dict_get (parse_html_data sp) (u ''Petitioner and Advocate'') = None)
   \<and> (find_tag_class ''span'' ''Respondent_Advocate_table'' sp = None
      \<longrightarrow> dict_get (parse_html_data sp) (u ''Respondent and Advocate'') = None)
   \<and> (find_tag_class ''table'' ''FIR_details_table'' sp = None
        \<and> find_tag_class ''span'' ''FIR_details_table'' sp = None
      \<longrightarrow> dict_get (parse_html_data sp) (u ''FIR Details'') = None)"
proof -
  have keys: "dict_keys (parse_html_data sp) =
     [u ''Case Details'', u ''Case Status'']
     @ (if find_tag_class ''span'' ''Petitioner_Advocate_table'' sp = None then []
        else [u ''Petitioner and Advocate''])
     @ (if find_tag_class ''span'' ''Respondent_Advocate_table'' sp = None then []
        else [u ''Respondent and Advocate''])
     @ [u ''Acts'', u ''Subordinate Court Information'']
     @ (if fir_section sp = [] then [] else [u ''FIR Details''])
     @ [u ''IA Details'', u ''Orders'', u ''Category Details'']"
    unfolding parse_list
    by (simp add: dict_keys_def party_None[symmetric] split: option.splits)
  have get: "dict_get (parse_html_data sp) k = map_of
     ([(u ''Case Details'', Mapping (case_details_section sp)),
      (u ''Case Status'', Mapping (case_status_section sp))]
     @ (case party_section ''Petitioner_Advocate_table'' sp of None \<Rightarrow> []
        | Some t \<Rightarrow> [(u ''Petitioner and Advocate'', Scalar t)])
     @ (case party_section ''Respondent_Advocate_table'' sp of None \<Rightarrow> []
        | Some t \<Rightarrow> [(u ''Respondent and Advocate'', Scalar t)])
     @ [(u ''Acts'', Table (acts_section sp)),
        (u ''Subordinate Court Information'', Mapping (sub_court_section sp))]
     @ (if fir_section sp = [] then [] else [(u ''FIR Details'', Table (fir_section sp))])
     @ [(u ''IA Details'', Table (ia_section sp)),
        (u ''Orders'', Table (orders_section sp)),
        (u ''Category Details'', Mapping (category_section sp))]) k" for k
    unfolding parse_list dict_get_def ..
  have cd: "find_label (u ''Case Type'') sp = None \<and> find_label (u ''Filing Number'') sp = None
        \<and> find_label (u ''Registration Number'') sp = None
        \<and> find_label (u ''CNR Number'') sp = None
      \<longrightarrow> dict_get (parse_html_data sp) (u ''Case Details'') = Some (Mapping [])"
    by (simp add: get case_details_absent)
  have cs: "find_status_div sp = None
      \<longrightarrow> dict_get (parse_html_data sp) (u ''Case Status'') = Some (Mapping [])"
    by (simp add: get case_status_section_def u_eq_iff)
  have acts: "find_tag_class ''table'' ''Acts_table'' sp = None
      \<longrightarrow> dict_get (parse_html_data sp) (u ''Acts'') = Some (Table [])"
    by (simp add: get acts_section_def u_eq_iff split: option.splits)
  have sub: "find_tag_class ''span'' ''Lower_court_table'' sp = None
      \<longrightarrow> dict_get (parse_html_data sp) (u ''Subordinate Court Information'') = Some (Mapping [])"
    by (simp add: get sub_court_section_def u_eq_iff split: option.splits)
  have ia: "find_tag_class ''table'' ''IAheading'' sp = None
      \<longrightarrow> dict_get (parse_html_data sp) (u ''IA Details'') = Some (Table [])"
    by (simp add: get ia_section_def u_eq_iff split: option.splits)
  have ord: "find_tag_class ''table'' ''order_table'' sp = None
      \<longrightarrow> dict_get (parse_html_data sp) (u ''Orders'') = Some (Table [])"
    by (simp add: get orders_section_def u_eq_iff split: option.splits)
  have cat: "find_cat_header sp = None
      \<longrightarrow> dict_get (parse_html_data sp) (u ''Category Details'') = Some (Mapping [])"
    by (simp add: get category_section_def u_eq_iff split: option.splits)
  have pet: "find_tag_class ''span'' ''Petitioner_Advocate_table'' sp = None
      \<longrightarrow> dict_get (parse_html_data sp) (u ''Petitioner and Advocate'') = None"
    by (simp add: get party_None[symmetric] u_eq_iff split: option.splits)
  have res: "find_tag_class ''span'' ''Respondent_Advocate_table'' sp = None
      \<longrightarrow> dict_get (parse_html_data sp) (u ''Respondent and Advocate'') = None"
    by (simp add: get party_None[symmetric] u_eq_iff split: option.splits)
  have fir: "find_tag_class ''table'' ''FIR_details_table'' sp = None
        \<and> find_tag_class ''span'' ''FIR_details_table'' sp = None
      \<longrightarrow> dict_get (parse_html_data sp) (u ''FIR Details'') = None"
    by (simp add: get fir_absent u_eq_iff split: option.splits)
  from keys cd cs acts sub ia ord cat pet res fir show ?thesis by blast
qed

text \<open>
  Claim C1 as stated fails: on a result container without any anchor, three of the named
  sections are not in the result at all.
\<close>

theorem extraction_omits_sections:
  "u ''Petitioner and Advocate'' \<notin> set (dict_keys (parse_html_data empty_result_doc))
   \<and> u ''Respondent and Advocate'' \<notin> set (dict_keys (parse_html_data empty_result_doc))
   \<and> u ''FIR Details'' \<notin> set (dict_keys (parse_html_data empty_result_doc))"
  unfolding empty_doc_parse by (simp add: dict_keys_def u_eq_iff)

lemma empty_doc_anchors:
  "find_label p empty_result_doc = None"
  "find_status_div empty_result_doc = None"
  "find_cat_header empty_result_doc = None"
  "find_tag_class ''table'' c empty_result_doc = None"
  "find_tag_class ''span'' c empty_result_doc = None"
  by (simp_all add: empty_result_doc_def bs4_defs)

text \<open>On the result container without anchors all the anchors are absent; the seven
  sections are there and empty, the three others are left out.\<close>

theorem extraction_sections_witness:
  "dict_keys (parse_html_data empty_result_doc) =
     [u ''Case Details'', u ''Case Status'', u ''Acts'', u ''Subordinate Court Information'',
      u ''IA Details'', u ''Orders'', u ''Category Details'']
   \<and> find_label (u ''Case Type'') empty_result_doc = None
   \<and> find_label (u ''Filing Number'') empty_result_doc = None
   \<and> find_label (u ''Registration Number'') empty_result_doc = None
   \<and> find_label (u ''CNR Number'') empty_result_doc = None
   \<and> dict_get (parse_html_data empty_result_doc) (u ''Case Details'') = Some (Mapping [])
   \<and> find_status_div empty_result_doc = None
   \<and> dict_get (parse_html_data empty_result_doc) (u ''Case Status'') = Some (Mapping [])
   \<and> find_tag_class ''table'' ''Acts_table'' empty_result_doc = None
   \<and> dict_get (parse_html_data empty_result_doc) (u ''Acts'') = Some (Table [])
   \<and> find_tag_class ''span'' ''Lower_court_table'' empty_result_doc = None
   \<and> dict_get (parse_html_data empty_result_doc) (u ''Subordinate Court Information'')
       = Some (Mapping [])
   \<and> find_tag_class ''table'' ''IAheading'' empty_result_doc = None
   \<and> dict_get (parse_html_data empty_result_doc) (u ''IA Details'') = Some (Table [])
   \<and> find_tag_class ''table'' ''order_table'' empty_result_doc = None
   \<and> dict_get (parse_html_data empty_result_doc) (u ''Orders'') = Some (Table [])
   \<and> find_cat_header empty_result_doc = None
   \<and> dict_get (parse_html_data empty_result_doc) (u ''Category Details'') = Some (Mapping [])
   \<and> find_tag_class ''span'' ''Petitioner_Advocate_table'' empty_result_doc = None
   \<and> dict_get (parse_html_data empty_result_doc) (u ''Petitioner and Advocate'') = None
   \<and> find_tag_class ''span'' ''Respondent_Advocate_table'' empty_result_doc = None
   \<and> dict_get (parse_html_data empty_result_doc) (u ''Respondent and Advocate'') = None
   \<and> find_tag_class ''table'' ''FIR_details_table'' empty_result_doc = None
   \<and> find_tag_class ''span'' ''FIR_details_table'' empty_result_doc = None
   \<and> dict_get (parse_html_data empty_result_doc) (u ''FIR Details'') = None"
  using extraction_sections[of empty_result_doc]
  by (simp add: empty_doc_anchors fir_absent)

subsection \<open>Tables\<close>





subsection \<open>The paired pattern\<close>

lemma colon_field_get:
  "k \<noteq> key \<Longrightarrow> dict_get (colon_field key sp d) k = dict_get d k"
  by (simp add: colon_field_def Let_def dict_get_set split: option.splits)

lemma paired_field_get:
  "dict_get (paired_field L1 L2 K sp d) k =
     (case label_row L1 sp of
        None \<Rightarrow> dict_get d k
      | Some row \<Rightarrow>
          (case re_search_pair L1 L2 (get_text (u '' '') True row) of
             Some (g1, g2) \<Rightarrow>
               if k = L2 then Some (py_strip g2)
               else if k = L1 then Some (py_strip g1) else dict_get d k
           | None \<Rightarrow> if k = K then Some (get_text (u '' '') True row) else dict_get d k))"
  by (simp add: paired_field_def Let_def dict_get_set split: option.splits)

text \<open>
  Claim C6. For the row of the Filing Number label, and for the row of the Registration
  Number label, the extraction first searches the row's flattened text for the paired
  pattern (number and date). When it matches, the two groups are stored, stripped, under
  the two keys (number and date) and the single-key entry is not written; the whole
  flattened text is stored under the single key (Filing Details, Registration Details)
  only when the paired pattern does not match, and then neither of the two keys is written.
\<close>

theorem paired_pattern_first:
  assumes "label_row (u L1) sp = Some row"
    and "(L1, L2, K) = (''Filing Number'', ''Filing Date'', ''Filing Details'')
         \<or> (L1, L2, K) = (''Registration Number'', ''Registration Date'', ''Registration Details'')"
  shows "case re_search_pair (u L1) (u L2) (get_text (u '' '') True row) of
           Some (g1, g2) \<Rightarrow>
             dict_get (case_details_section sp) (u L1) = Some (py_strip g1)
             \<and> dict_get (case_details_section sp) (u L2) = Some (py_strip g2)
             \<and> dict_get (case_details_section sp) (u K) = None
         | None \<Rightarrow>
             dict_get (case_details_section sp) (u K) = Some (get_text (u '' '') True row)
             \<and> dict_get (case_details_section sp) (u L1) = None
             \<and> dict_get (case_details_section sp) (u L2) = None"
  using assms
  by (auto simp: case_details_section_def Let_def colon_field_get paired_field_get u_eq_iff
      dict_get_Nil split: option.splits)

lemmas re_defs = match_at_def label_colon_def tail_match_def ci_char_def ascii_lower_def

lemma sample_filing_label_row:
  "label_row (u ''Filing Number'') sample_doc = Some sample_filing_row"
  by (simp add: sample_doc_def sample_filing_row_def label_row_def bs4_defs str_defs)

lemma sample_filing_text:
  "get_text (u '' '') True sample_filing_row
     = u ''Filing Number : 123/2020 Filing Date : 01-02-2020''"
  by (simp add: sample_filing_row_def bs4_defs str_defs)

lemma sample_filing_match:
  "re_search_pair (u ''Filing Number'') (u ''Filing Date'')
     (u ''Filing Number : 123/2020 Filing Date : 01-02-2020'')
   = Some (u ''123/2020'', u ''01-02-2020'')"
  by (simp add: str_defs re_defs)

lemma lone_registration_label_row:
  "label_row (u ''Registration Number'') lone_registration_doc = Some lone_registration_row"
  by (simp add: lone_registration_doc_def lone_registration_row_def label_row_def bs4_defs str_defs)

lemma lone_registration_text:
  "get_text (u '' '') True lone_registration_row = u ''Registration Number : 456/2021''"
  by (simp add: lone_registration_row_def bs4_defs str_defs)

lemma lone_registration_no_match:
  "re_search_pair (u ''Registration Number'') (u ''Registration Date'')
     (u ''Registration Number : 456/2021'') = None"
  by (simp add: str_defs re_defs)

text \<open>A row with number and date gives the two entries; a row with a registration number
  alone gives the single entry with the whole text.\<close>

theorem paired_pattern_first_witness:
  "label_row (u ''Filing Number'') sample_doc = Some sample_filing_row
   \<and> re_search_pair (u ''Filing Number'') (u ''Filing Date'')
        (get_text (u '' '') True sample_filing_row) = Some (u ''123/2020'', u ''01-02-2020'')
   \<and> dict_get (case_details_section sample_doc) (u ''Filing Number'') = Some (u ''123/2020'')
   \<and> dict_get (case_details_section sample_doc) (u ''Filing Date'') = Some (u ''01-02-2020'')
   \<and> dict_get (case_details_section sample_doc) (u ''Filing Details'') = None
   \<and> label_row (u ''Registration Number'') lone_registration_doc = Some lone_registration_row
   \<and> re_search_pair (u ''Registration Number'') (u ''Registration Date'')
        (get_text (u '' '') True lone_registration_row) = None
   \<and> dict_get (case_details_section lone_registration_doc) (u ''Registration Details'')
        = Some (u ''Registration Number : 456/2021'')
   \<and> dict_get (case_details_section lone_registration_doc) (u ''Registration Number'') = None
   \<and> dict_get (case_details_section lone_registration_doc) (u ''Registration Date'') = None"
proof -
  have s: "py_strip (u ''123/2020'') = u ''123/2020''"
    "py_strip (u ''01-02-2020'') = u ''01-02-2020''"
    by (simp_all add: str_defs)
  from paired_pattern_first[OF sample_filing_label_row, of "''Filing Date''" "''Filing Details''"]
  have 1: "dict_get (case_details_section sample_doc) (u ''Filing Number'') = Some (u ''123/2020'')
   \<and> dict_get (case_details_section sample_doc) (u ''Filing Date'') = Some (u ''01-02-2020'')
   \<and> dict_get (case_details_section sample_doc) (u ''Filing Details'') = None"
    by (simp add: sample_filing_text sample_filing_match s)
  from paired_pattern_first[OF lone_registration_label_row, of "''Registration Date''"
      "''Registration Details''"]
  have 2: "dict_get (case_details_section lone_registration_doc) (u ''Registration Details'')
        = Some (u ''Registration Number : 456/2021'')
   \<and> dict_get (case_details_section lone_registration_doc) (u ''Registration Number'') = None
   \<and> dict_get (case_details_section lone_registration_doc) (u ''Registration Date'') = None"
    by (simp add: lone_registration_text lone_registration_no_match)
  from 1 2 show ?thesis
    by (simp add: sample_filing_label_row sample_filing_text sample_filing_match
        lone_registration_label_row lone_registration_text lone_registration_no_match)
qed

section \<open>Properties of the challenge loop\<close>












lemma run_attempt_unusable:
  "\<forall>t. ocr e = Some t \<longrightarrow> clean_ocr t = [] \<Longrightarrow> fst (run_attempt e f) \<noteq> Accepted"
  by (auto simp: run_attempt_def Let_def split: image_state.splits option.splits)

lemma attempts_loop_bound:
  "attempts_run (attempts_loop env rest f finished) \<le> length finished + length rest"
proof (induction rest arbitrary: f finished)
  case Nil
  then show ?case by (simp add: attempts_run_def)
next
  case (Cons a rest)
  obtain r f' where rf: "run_attempt (env a) f = (r, f')" by (cases "run_attempt (env a) f")
  show ?case
  proof (cases "r = Accepted")
    case True
    with rf show ?thesis by (simp add: attempts_run_def)
  next
    case False
    with rf have "attempts_loop env (a # rest) f finished = attempts_loop env rest f' (finished @ [r])"
      by (cases r) simp_all
    with Cons.IH[of f' "finished @ [r]"] show ?thesis by simp
  qed
qed

lemma attempts_loop_exhausted:
  "\<forall>a \<in> set rest. \<forall>t. ocr (env a) = Some t \<longrightarrow> clean_ocr t = [] \<Longrightarrow>
   \<not> captcha_solved (attempts_loop env rest f finished)
   \<and> attempts_run (attempts_loop env rest f finished) = length finished + length rest"
proof (induction rest arbitrary: f finished)
  case Nil
  then show ?case by (simp add: attempts_run_def captcha_solved_def)
next
  case (Cons a rest)
  obtain r f' where rf: "run_attempt (env a) f = (r, f')" by (cases "run_attempt (env a) f")
  from Cons.prems have "fst (run_attempt (env a) f) \<noteq> Accepted"
    by (intro run_attempt_unusable) simp
  with rf have "r \<noteq> Accepted" by simp
  with rf have "attempts_loop env (a # rest) f finished = attempts_loop env rest f' (finished @ [r])"
    by (cases r) simp_all
  with Cons.IH[of f' "finished @ [r]"] Cons.prems show ?case by simp
qed

text \<open>
  Claim C4. The loop runs at most \<open>n\<close> attempts for every behaviour of the browser and of the
  recognition, and it always returns. When the recognition never returns text that cleans
  to a non-empty string, it runs exactly \<open>n\<close> attempts and ends with \<open>captcha_solved\<close> false:
  the manual intervention. With the \<open>max_attempts\<close> of the source these are exactly 5.
\<close>

theorem attempts_bounded:
  "attempts_run (resolve env n f) \<le> n
   \<and> ((\<forall>a < n. \<forall>t. ocr (env a) = Some t \<longrightarrow> clean_ocr t = [])
        \<longrightarrow> \<not> captcha_solved (resolve env n f) \<and> attempts_run (resolve env n f) = n)"
  using attempts_loop_bound[of env "[0..<n]" f "[]"] attempts_loop_exhausted[of "[0..<n]" env f "[]"]
  by (simp add: resolve_def)

lemma blank_ocr_unusable: "\<forall>a < max_attempts. \<forall>t. ocr (blank_ocr_env a) = Some t \<longrightarrow> clean_ocr t = []"
  by (simp add: blank_ocr_env_def clean_ocr_def py_strip_def py_isspace_def is_alnum_def u_def)

text \<open>A recognition that returns a blank, a dot and a dash, which clean to nothing, at every
  attempt: five attempts and no solution.\<close>

theorem attempts_bounded_witness:
  "ocr (blank_ocr_env 0) = Some (u '' .-'') \<and> clean_ocr (u '' .-'') = []
   \<and> attempts_run (resolve blank_ocr_env max_attempts False) \<le> max_attempts
   \<and> \<not> captcha_solved (resolve blank_ocr_env max_attempts False)
   \<and> attempts_run (resolve blank_ocr_env max_attempts False) = 5"
proof -
  have c: "clean_ocr (u '' .-'') = []"
    by (simp add: clean_ocr_def py_strip_def py_isspace_def is_alnum_def u_def)
  from attempts_bounded[of blank_ocr_env max_attempts False] blank_ocr_unusable c
  show ?thesis by (simp add: max_attempts_def blank_ocr_env_def)
qed

text \<open>
  Claim C7 does not hold of the code. When the recognition raises after the capture was
  written, the attempt goes to the handler of \<open>except Exception\<close> without passing
  \<open>os.remove\<close>: the file \<open>temp_captcha.png\<close> exists after the attempt, and still after the
  last of five such attempts.
\<close>

theorem capture_left_behind:
  "run_attempt (ocr_raises_env 0) False = (Raised, True)
   \<and> file_left (resolve ocr_raises_env max_attempts False)"
proof -
  have r: "run_attempt (ocr_raises_env a) f = (Raised, True)" for a f
    by (simp add: run_attempt_def ocr_raises_env_def)
  have u5: "[0..<5] = [0, 1, 2, 3, 4::nat]"
    by (simp add: upt_rec)
  show ?thesis
    by (simp add: r resolve_def max_attempts_def file_left_def u5)
qed

text \<open>On the paths on which the recognition returns, the file is removed.\<close>

lemma capture_removed_when_recognised:
  "ocr e = Some t \<Longrightarrow> snd (run_attempt e f) = False \<or> fst (run_attempt e f) \<in> {NotLoaded, Raised}"
  by (auto simp: run_attempt_def Let_def split: image_state.splits)

section \<open>Properties of the report\<close>

subsection \<open>The texts handed to FPDF\<close>

lemma add_page_proj [simp]:
  "pdf_page (pdf_add_page g st) = pdf_page st + 1" "pdf_y (pdf_add_page g st) = y_top g"
  "blocks (pdf_add_page g st) = blocks st" "calls (pdf_add_page g st) = calls st"
  by (simp_all add: pdf_add_page_def)

lemma set_y_proj [simp]:
  "pdf_page (pdf_set_y y st) = pdf_page st" "pdf_y (pdf_set_y y st) = y"
  "blocks (pdf_set_y y st) = blocks st" "calls (pdf_set_y y st) = calls st"
  by (simp_all add: pdf_set_y_def)

lemma ln_proj [simp]:
  "pdf_page (pdf_ln h st) = pdf_page st" "pdf_y (pdf_ln h st) = pdf_y st + h"
  "blocks (pdf_ln h st) = blocks st" "calls (pdf_ln h st) = calls st"
  by (simp_all add: pdf_ln_def)

lemma rect_proj [simp]:
  "pdf_page (pdf_rect x y w h st) = pdf_page st" "pdf_y (pdf_rect x y w h st) = pdf_y st"
  "calls (pdf_rect x y w h st) = calls st"
  by (simp_all add: pdf_rect_def)

lemma draw_cell_calls [simp]: "calls (draw_cell g kind x w h st) = calls st"
  by (simp add: draw_cell_def Let_def)

lemma draw_lines_calls [simp]: "calls (draw_lines g kind x w h n st) = calls st"
  by (induction n arbitrary: st) simp_all

lemma pdf_cell_calls [simp]: "calls (pdf_cell g kind w h txt st) = calls st @ [(kind, txt)]"
  by (simp add: pdf_cell_def)

lemma multi_cell_calls [simp]:
  "calls (pdf_multi_cell g wrap kind f x w h txt st) = calls st @ [(kind, txt)]"
  by (simp add: pdf_multi_cell_def)

lemma render_kv_calls:
  "calls (render_kv g wrap kv st) =
     calls st @ [(KeyCell, latin1_replace (fst kv)), (ValueCell, latin1_replace (snd kv))]"
  by (simp add: render_kv_def Let_def)

lemma render_mapping_calls:
  "calls (render_mapping g wrap d st) =
     calls st @ concat (map (\<lambda>kv. [(KeyCell, latin1_replace (fst kv)),
                                      (ValueCell, latin1_replace (snd kv))]) d)"
  by (induction d arbitrary: st) (simp_all add: render_kv_calls)

lemma columns_loop_calls:
  "calls (fst (columns_loop g wrap kind f xs ys0 cw i txts st ys)) =
     calls st @ map (Pair kind) txts"
  by (induction txts arbitrary: st ys i) (simp_all add: Let_def)

lemma rects_loop_calls [simp]: "calls (rects_loop xs ys0 cw rh is st) = calls st"
  by (induction "is" arbitrary: st) simp_all

lemma render_row_calls:
  "calls (render_row g wrap kind f cw txts st) = calls st @ map (Pair kind) txts"
proof -
  let ?st1 = "if pdf_y st > 260 then pdf_add_page g st else st"
  have c1: "calls ?st1 = calls st" by simp
  obtain st2 ys where l: "columns_loop g wrap kind f (l_margin g) (pdf_y ?st1) cw 0 txts ?st1 [] = (st2, ys)"
    by (cases "columns_loop g wrap kind f (l_margin g) (pdf_y ?st1) cw 0 txts ?st1 []")
  from columns_loop_calls[of g wrap kind f "l_margin g" "pdf_y ?st1" cw 0 txts ?st1 "[]"] l c1
  have "calls st2 = calls st @ map (Pair kind) txts" by simp
  with l show ?thesis by (simp add: render_row_def Let_def)
qed

lemma render_data_rows_calls:
  "calls (render_data_rows g wrap cw headers content st) =
     calls st @ concat (map (\<lambda>row. map (Pair DataCell) (row_texts headers row)) content)"
  by (induction content arbitrary: st) (simp_all add: render_row_calls)

lemma render_table_calls:
  "calls (render_table g wrap content st) = calls st @ tl (section_texts (name, Table content))"
proof (cases content)
  case Nil
  then show ?thesis by (simp add: render_table_def)
next
  case (Cons first others)
  then show ?thesis
    by (simp add: render_table_def Let_def render_row_calls render_data_rows_calls row_texts_def
        comp_def)
qed

lemma render_section_calls:
  "calls (render_section g wrap sc st) = calls st @ section_texts sc"
proof (cases sc)
  case (Pair name c)
  show ?thesis
  proof (cases c)
    case (Mapping d)
    with Pair show ?thesis by (simp add: render_section_def Let_def render_mapping_calls)
  next
    case (Table t)
    with Pair show ?thesis
      using render_table_calls[of g wrap t _ name]
      by (cases t) (simp_all add: render_section_def Let_def)
  next
    case (Scalar s)
    with Pair show ?thesis by (simp add: render_section_def Let_def)
  qed
qed

lemma render_sections_calls:
  "calls (render_sections g wrap data st) = calls st @ concat (map section_texts data)"
  by (induction data arbitrary: st) (simp_all add: render_section_calls)

lemma layout_calls: "calls (layout g wrap data) = concat (map section_texts data)"
  by (simp add: layout_def render_sections_calls new_pdf_def)

lemma encodable_latin1 [simp]: "encodable (latin1_replace s)"
  by (induction s) (simp_all add: encodable_def latin1_replace_def)

lemma encodable_u [simp]: "encodable (u s)"
proof -
  have "(of_char c :: nat) < 256" for c
    by (metis of_char_mod_256 mod_less_divisor zero_less_numeral)
  then show ?thesis by (induction s) (simp_all add: encodable_def u_def)
qed

lemma section_texts_encodable:
  "call \<in> set (section_texts sc) \<Longrightarrow> fst call \<noteq> SectionHeader \<Longrightarrow> encodable (snd call)"
proof (cases sc)
  case (Pair name c)
  assume a: "call \<in> set (section_texts sc)" "fst call \<noteq> SectionHeader"
  show ?thesis
  proof (cases c)
    case (Mapping d)
    with Pair a show ?thesis by auto
  next
    case (Table t)
    with Pair a show ?thesis by (cases t) (auto split: if_splits)
  next
    case (Scalar s)
    with Pair a show ?thesis by auto
  qed
qed

lemma section_texts_header:
  "call \<in> set (section_texts sc) \<Longrightarrow> fst call = SectionHeader \<Longrightarrow> snd call = fst sc"
proof (cases sc)
  case (Pair name c)
  assume a: "call \<in> set (section_texts sc)" "fst call = SectionHeader"
  show ?thesis
  proof (cases c)
    case (Mapping d)
    with Pair a show ?thesis by auto
  next
    case (Table t)
    with Pair a show ?thesis by (cases t) (auto split: if_splits)
  next
    case (Scalar s)
    with Pair a show ?thesis by auto
  qed
qed

lemma layout_calls_encodable:
  assumes "\<forall>sc \<in> set data. encodable (fst sc)"
  shows "list_all (\<lambda>call. encodable (snd call)) (calls (layout g wrap data))"
proof -
  have "encodable (snd call)" if "call \<in> set (concat (map section_texts data))" for call
  proof -
    from that obtain sc where sc: "sc \<in> set data" "call \<in> set (section_texts sc)" by auto
    show ?thesis
    proof (cases "fst call = SectionHeader")
      case True
      with sc section_texts_header[of call sc] assms show ?thesis by simp
    next
      case False
      with sc section_texts_encodable show ?thesis by blast
    qed
  qed
  then show ?thesis by (simp add: layout_calls list_all_iff)
qed

lemma empty_table_blocks:
  "map b_kind (blocks (render_section g wrap (name, Table []) st))
     = map b_kind (blocks st) @ [SectionHeader, NoRecordsRow]"
  by (simp add: render_section_def render_table_def pdf_cell_def draw_cell_def Let_def
      pdf_ln_def pdf_add_page_def)

text \<open>
  Claim C8. The texts that the layout hands to FPDF are those of \<open>section_texts\<close>, in order.
  Every text of a key, a value, a table cell or a text block has passed \<open>latin1_replace\<close>,
  which keeps the length and replaces, character by character, exactly those that Latin-1
  does not have by the question mark; so all of them can be encoded, and when the names of
  the sections can be encoded too, \<open>create_pdf\<close> returns the document and does not raise. An
  empty Table prints the name of its section and the one row "No records found.", and no
  header row.
\<close>

theorem render_substitutes:
  "calls (layout g wrap data) = concat (map section_texts data)
   \<and> (\<forall>call \<in> set (calls (layout g wrap data)).
        fst call \<noteq> SectionHeader \<longrightarrow> encodable (snd call))
   \<and> length (latin1_replace s) = length s
   \<and> (\<forall>i < length s. latin1_replace s ! i = (if s ! i < 256 then s ! i else 63))
   \<and> ((\<forall>sc \<in> set data. encodable (fst sc))
        \<longrightarrow> create_pdf g wrap data = Inr (layout g wrap data))
   \<and> calls (render_section g wrap (name, Table []) st)
        = calls st @ [(SectionHeader, name), (NoRecordsRow, u ''No records found.'')]
   \<and> map b_kind (blocks (render_section g wrap (name, Table []) st))
        = map b_kind (blocks st) @ [SectionHeader, NoRecordsRow]"
proof -
  have b: "\<forall>call \<in> set (calls (layout g wrap data)).
        fst call \<noteq> SectionHeader \<longrightarrow> encodable (snd call)"
    using section_texts_encodable by (auto simp: layout_calls)
  have c: "length (latin1_replace s) = length s"
    "\<forall>i < length s. latin1_replace s ! i = (if s ! i < 256 then s ! i else 63)"
    by (simp_all add: latin1_replace_def)
  have d: "(\<forall>sc \<in> set data. encodable (fst sc))
        \<longrightarrow> create_pdf g wrap data = Inr (layout g wrap data)"
    using layout_calls_encodable[of data g wrap] by (simp add: create_pdf_def Let_def)
  have e: "calls (render_section g wrap (name, Table []) st)
        = calls st @ [(SectionHeader, name), (NoRecordsRow, u ''No records found.'')]"
    by (simp add: render_section_calls)
  from b c d e layout_calls[of g wrap data] empty_table_blocks[of g wrap name st]
  show ?thesis by blast
qed

text \<open>A value with the rupee sign is printed with a question mark in its place, and the
  record of the round trip prints the placeholder row for its empty Table.\<close>

theorem render_substitutes_witness:
  "calls (layout a4 wrap40 rupee_record)
     = [(SectionHeader, u ''Case Details''), (KeyCell, u ''Fee''), (ValueCell, u ''?50'')]
   \<and> encodable (u ''Case Details'')
   \<and> create_pdf a4 wrap40 rupee_record = Inr (layout a4 wrap40 rupee_record)
   \<and> latin1_replace [8377, 53, 48] = [63, 53, 48]
   \<and> calls (layout a4 wrap40 round_trip_record)
     = [(SectionHeader, u ''Case Details''), (KeyCell, u ''CNR Number''), (ValueCell, u ''ABC123''),
        (SectionHeader, u ''Orders''), (NoRecordsRow, u ''No records found.'')]"
proof -
  have l: "latin1_replace [8377, 53, 48] = u ''?50''" "latin1_replace (u ''Fee'') = u ''Fee''"
    "latin1_replace (u ''CNR Number'') = u ''CNR Number''"
    "latin1_replace (u ''ABC123'') = u ''ABC123''"
    by (simp_all add: latin1_replace_def u_def)
  have l': "latin1_replace [8377, 53, 48] = [63, 53, 48]"
    by (simp add: latin1_replace_def)
  have e: "\<forall>sc \<in> set rupee_record. encodable (fst sc)"
    by (simp add: rupee_record_def)
  from render_substitutes[of a4 wrap40 rupee_record "[8377, 53, 48]" "[]" "pdf_add_page a4 new_pdf"]
  have 1: "calls (layout a4 wrap40 rupee_record)
     = [(SectionHeader, u ''Case Details''), (KeyCell, u ''Fee''), (ValueCell, u ''?50'')]"
    and 2: "create_pdf a4 wrap40 rupee_record = Inr (layout a4 wrap40 rupee_record)"
    using e by (simp_all add: rupee_record_def l)
  from render_substitutes[of a4 wrap40 round_trip_record "[]" "[]" "pdf_add_page a4 new_pdf"]
  have 4: "calls (layout a4 wrap40 round_trip_record)
     = [(SectionHeader, u ''Case Details''), (KeyCell, u ''CNR Number''), (ValueCell, u ''ABC123''),
        (SectionHeader, u ''Orders''), (NoRecordsRow, u ''No records found.'')]"
    by (simp add: round_trip_record_def l)
  from 1 2 4 l' show ?thesis by simp
qed

lemma latin1_Nil [simp]: "latin1_replace [] = []" by (simp add: latin1_replace_def)

text \<open>
  Claim C10. A Table whose first entry has keys prints these keys as its header row, and
  for every entry one cell for each of these keys. The cell of a key that the entry lacks
  is the empty string, and nothing is raised; the cells of an entry depend only on its
  values at the keys of the first entry, so that its other keys are ignored.
\<close>

theorem table_header_from_first_entry:
  "(content = first # others \<and> dict_keys first \<noteq> [] \<longrightarrow>
      calls (render_table g wrap content st) =
        calls st @ map (\<lambda>h. (HeaderCell, latin1_replace h)) (dict_keys first)
        @ concat (map (\<lambda>row. map (Pair DataCell) (row_texts (dict_keys first) row)) content))
   \<and> length (row_texts headers row) = length headers
   \<and> (\<forall>i < length headers.
         row_texts headers row ! i =
           (case dict_get row (headers ! i) of None \<Rightarrow> [] | Some val \<Rightarrow> latin1_replace val))
   \<and> ((\<forall>h \<in> set headers. dict_get row h = dict_get row' h)
        \<longrightarrow> row_texts headers row = row_texts headers row')"
proof -
  have a: "content = first # others \<and> dict_keys first \<noteq> [] \<longrightarrow>
      calls (render_table g wrap content st) =
        calls st @ map (\<lambda>h. (HeaderCell, latin1_replace h)) (dict_keys first)
        @ concat (map (\<lambda>row. map (Pair DataCell) (row_texts (dict_keys first) row)) content)"
    by (simp add: render_table_def Let_def render_row_calls render_data_rows_calls comp_def)
  have b: "length (row_texts headers row) = length headers"
    by (simp add: row_texts_def)
  have c: "\<forall>i < length headers.
         row_texts headers row ! i =
           (case dict_get row (headers ! i) of None \<Rightarrow> [] | Some val \<Rightarrow> latin1_replace val)"
    by (simp add: row_texts_def split: option.splits)
  have d: "(\<forall>h \<in> set headers. dict_get row h = dict_get row' h)
        \<longrightarrow> row_texts headers row = row_texts headers row'"
    by (simp add: row_texts_def)
  from a b c d show ?thesis by blast
qed

text \<open>The second entry of \<open>ragged_table\<close> lacks \<open>A\<close> and has a key \<open>C\<close> of its own: its row is an
  empty cell and \<open>x\<close>, the same as without \<open>C\<close>.\<close>

theorem table_header_from_first_entry_witness:
  "ragged_table = [(u ''A'', u ''1''), (u ''B'', u ''2'')] # [[(u ''B'', u ''x''), (u ''C'', u ''y'')]]
   \<and> dict_keys [(u ''A'', u ''1''), (u ''B'', u ''2'')] = [u ''A'', u ''B'']
   \<and> calls (render_table a4 wrap40 ragged_table
              (pdf_add_page a4 new_pdf))
      = [(HeaderCell, u ''A''), (HeaderCell, u ''B''),
         (DataCell, u ''1''), (DataCell, u ''2''),
         (DataCell, []), (DataCell, u ''x'')]
   \<and> row_texts [u ''A'', u ''B''] [(u ''B'', u ''x''), (u ''C'', u ''y'')]
      = row_texts [u ''A'', u ''B''] [(u ''B'', u ''x'')]"
proof -
  have k: "dict_keys [(u ''A'', u ''1''), (u ''B'', u ''2'')] = [u ''A'', u ''B'']"
    by (simp add: dict_keys_def)
  have l: "latin1_replace (u ''A'') = u ''A''" "latin1_replace (u ''B'') = u ''B''"
    "latin1_replace (u ''1'') = u ''1''" "latin1_replace (u ''2'') = u ''2''"
    "latin1_replace (u ''x'') = u ''x''"
    by (simp_all add: latin1_replace_def u_def)
  have g: "\<forall>h \<in> set [u ''A'', u ''B''].
      dict_get [(u ''B'', u ''x''), (u ''C'', u ''y'')] h = dict_get [(u ''B'', u ''x'')] h"
    by (simp add: dict_get_def u_def)
  note T = table_header_from_first_entry[of ragged_table "[(u ''A'', u ''1''), (u ''B'', u ''2'')]"
      "[[(u ''B'', u ''x''), (u ''C'', u ''y'')]]" a4 wrap40
      "(pdf_add_page a4 new_pdf)"
      "[u ''A'', u ''B'']" "[(u ''B'', u ''x''), (u ''C'', u ''y'')]" "[(u ''B'', u ''x'')]"]
  have r: "ragged_table = [(u ''A'', u ''1''), (u ''B'', u ''2'')] # [[(u ''B'', u ''x''), (u ''C'', u ''y'')]]"
    by (simp add: ragged_table_def)
  have rt: "row_texts [u ''A'', u ''B''] [(u ''A'', u ''1''), (u ''B'', u ''2'')] = [u ''1'', u ''2'']"
    "row_texts [u ''A'', u ''B''] [(u ''B'', u ''x''), (u ''C'', u ''y'')] = [[], u ''x'']"
    by (simp_all add: row_texts_def dict_get_def l) (simp_all add: u_def)
  have 1: "calls (render_table a4 wrap40 ragged_table
              (pdf_add_page a4 new_pdf))
      = [(HeaderCell, u ''A''), (HeaderCell, u ''B''),
         (DataCell, u ''1''), (DataCell, u ''2''),
         (DataCell, []), (DataCell, u ''x'')]"
    using T k unfolding r by (simp add: l rt new_pdf_def)
  from T g have 2: "row_texts [u ''A'', u ''B''] [(u ''B'', u ''x''), (u ''C'', u ''y'')]
      = row_texts [u ''A'', u ''B''] [(u ''B'', u ''x'')]" by blast
  from r k 1 2 show ?thesis by blast
qed

subsection \<open>Blocks stay within the page\<close>

lemma in_printable_mono: "in_printable g n b \<Longrightarrow> n \<le> m \<Longrightarrow> in_printable g m b"
  by (simp add: in_printable_def)

lemma all_printable_mono:
  "all_printable g st \<Longrightarrow> blocks st' = blocks st \<Longrightarrow> pdf_page st \<le> pdf_page st'
     \<Longrightarrow> all_printable g st'"
  by (auto simp: all_printable_def list_all_iff intro: in_printable_mono)

lemma add_page_on: "on_page g st \<Longrightarrow> on_page g (pdf_add_page g st)"
  by (auto simp: on_page_def intro: all_printable_mono)

lemma add_page_in:
  "on_page g st \<Longrightarrow> y_top g \<le> page_break_trigger g \<Longrightarrow> in_page g (pdf_add_page g st)"
  by (simp add: in_page_def add_page_on)

lemma set_y_in:
  "on_page g st \<Longrightarrow> y_top g \<le> y \<Longrightarrow> y \<le> page_break_trigger g \<Longrightarrow> in_page g (pdf_set_y y st)"
  by (auto simp: in_page_def on_page_def intro: all_printable_mono)

lemma ln_on: "on_page g st \<Longrightarrow> 0 \<le> h \<Longrightarrow> on_page g (pdf_ln h st)"
  by (auto simp: on_page_def intro: all_printable_mono)

lemma rect_on:
  assumes "on_page g st" "y_top g \<le> y" "y \<le> page_break_trigger g"
    "y_top g \<le> y + h" "y + h \<le> page_break_trigger g"
    "l_margin g \<le> x" "x + w \<le> l_margin g + page_width"
  shows "on_page g (pdf_rect x y w h st)"
  using assms
  by (auto simp: on_page_def all_printable_def pdf_rect_def in_printable_def
      block_top_def block_bottom_def)

lemma rect_in:
  assumes "in_page g st" "y_top g \<le> y" "y \<le> page_break_trigger g"
    "y_top g \<le> y + h" "y + h \<le> page_break_trigger g"
    "l_margin g \<le> x" "x + w \<le> l_margin g + page_width"
  shows "in_page g (pdf_rect x y w h st)"
  using assms rect_on[of g st y h x w] by (simp add: in_page_def)

lemma draw_cell_in:
  assumes "on_page g st" "0 \<le> h" "y_top g + h \<le> page_break_trigger g"
    "l_margin g \<le> x" "x + w \<le> l_margin g + page_width"
  shows "in_page g (draw_cell g kind x w h st)"
proof (cases "pdf_y st + h > page_break_trigger g")
  case True
  with assms show ?thesis
    by (auto simp: in_page_def on_page_def all_printable_def draw_cell_def Let_def
        in_printable_def block_top_def block_bottom_def list_all_iff)
next
  case False
  with assms show ?thesis
    by (auto simp: in_page_def on_page_def all_printable_def draw_cell_def Let_def
        in_printable_def block_top_def block_bottom_def list_all_iff)
qed

lemma draw_cell_page:
  "pdf_page st \<le> pdf_page (draw_cell g kind x w h st)"
  "pdf_page (draw_cell g kind x w h st) = pdf_page st
     \<Longrightarrow> pdf_y (draw_cell g kind x w h st) = pdf_y st + h"
  by (auto simp: draw_cell_def Let_def)

lemma in_page_on: "in_page g st \<Longrightarrow> on_page g st"
  by (simp add: in_page_def)

lemma draw_lines_in:
  assumes "0 \<le> h" "y_top g + h \<le> page_break_trigger g"
    "l_margin g \<le> x" "x + w \<le> l_margin g + page_width"
  shows "in_page g st \<Longrightarrow> in_page g (draw_lines g kind x w h n st)"
proof (induction n arbitrary: st)
  case 0
  then show ?case by simp
next
  case (Suc n)
  from Suc.prems have "in_page g (draw_cell g kind x w h st)"
    using assms by (intro draw_cell_in in_page_on)
  then show ?case using Suc.IH by simp
qed

lemma draw_lines_in_Suc:
  assumes "0 \<le> h" "y_top g + h \<le> page_break_trigger g"
    "l_margin g \<le> x" "x + w \<le> l_margin g + page_width" "on_page g st"
  shows "in_page g (draw_lines g kind x w h (Suc n) st)"
  using assms draw_lines_in[OF assms(1-4), of "draw_cell g kind x w h st" kind n]
    draw_cell_in[of g st h x w kind] by simp

lemma draw_lines_page:
  "pdf_page st \<le> pdf_page (draw_lines g kind x w h n st)"
  "pdf_page (draw_lines g kind x w h n st) = pdf_page st
     \<Longrightarrow> pdf_y (draw_lines g kind x w h n st) = pdf_y st + of_nat n * h"
proof (induction n arbitrary: st)
  case 0
  { case 1 show ?case by simp }
  { case 2 show ?case by simp }
next
  case (Suc n)
  { case 1
    show ?case using Suc.IH(1)[of "draw_cell g kind x w h st"] draw_cell_page(1)[of st g kind x w h]
      by simp }
  { case 2
    have a: "pdf_page st \<le> pdf_page (draw_cell g kind x w h st)" by (rule draw_cell_page)
    have b: "pdf_page (draw_cell g kind x w h st) \<le> pdf_page (draw_lines g kind x w h n (draw_cell g kind x w h st))"
      by (rule Suc.IH(1))
    from 2 a b have c: "pdf_page (draw_cell g kind x w h st) = pdf_page st" by simp
    with 2 have d: "pdf_page (draw_lines g kind x w h n (draw_cell g kind x w h st)) = pdf_page (draw_cell g kind x w h st)"
      by simp
    from Suc.IH(2)[OF d] draw_cell_page(2)[OF c] show ?case by (simp add: algebra_simps) }
qed

lemma multi_cell_in:
  assumes "0 \<le> h" "y_top g + h \<le> page_break_trigger g"
    "l_margin g \<le> x" "x + w \<le> l_margin g + page_width" "on_page g st"
  shows "in_page g (pdf_multi_cell g wrap kind f x w h txt st)"
proof -
  obtain n where n: "n_lines wrap f w txt = Suc n"
    by (cases "n_lines wrap f w txt") (simp_all add: n_lines_def)
  have "on_page g (st\<lparr>calls := calls st @ [(kind, txt)]\<rparr>)"
    using assms(5) by (simp add: on_page_def all_printable_def)
  from draw_lines_in_Suc[OF assms(1-4) this] show ?thesis
    by (simp add: pdf_multi_cell_def n)
qed

lemma multi_cell_page:
  "pdf_page st \<le> pdf_page (pdf_multi_cell g wrap kind f x w h txt st)"
  "pdf_page (pdf_multi_cell g wrap kind f x w h txt st) = pdf_page st
     \<Longrightarrow> pdf_y (pdf_multi_cell g wrap kind f x w h txt st)
         = pdf_y st + of_nat (n_lines wrap f w txt) * h"
  using draw_lines_page[where st="st\<lparr>calls := calls st @ [(kind, txt)]\<rparr>" and g=g and kind=kind and x=x and w=w and h=h and n="n_lines wrap f w txt"]
  by (simp_all add: pdf_multi_cell_def)

lemma pdf_cell_in:
  assumes "on_page g st" "0 \<le> h" "y_top g + h \<le> page_break_trigger g"
    "w = 0"
  shows "in_page g (pdf_cell g kind w h txt st)"
proof -
  have "on_page g (st\<lparr>calls := calls st @ [(kind, txt)]\<rparr>)"
    using assms(1) by (simp add: on_page_def all_printable_def)
  from draw_cell_in[OF this assms(2,3), of "l_margin g" w kind] assms(4) show ?thesis
    by (simp add: pdf_cell_def page_width_def)
qed

lemma pdf_cell_page:
  "pdf_page st \<le> pdf_page (pdf_cell g kind w h txt st)"
  "pdf_page (pdf_cell g kind w h txt st) = pdf_page st
     \<Longrightarrow> pdf_y (pdf_cell g kind w h txt st) = pdf_y st + h"
  using draw_cell_page[where st="st\<lparr>calls := calls st @ [(kind, txt)]\<rparr>" and g=g and kind=kind and x="l_margin g" and w=w and h=h]
  by (simp_all add: pdf_cell_def)

lemma check_in:
  assumes "in_page g st" "y_top g \<le> page_break_trigger g"
  shows "in_page g (if pdf_y st > c then pdf_add_page g st else st)"
  using assms by (simp add: add_page_in in_page_on)

lemma in_page_y: "in_page g st \<Longrightarrow> y_top g \<le> pdf_y st \<and> pdf_y st \<le> page_break_trigger g"
  by (simp add: in_page_def on_page_def)

lemma render_kv_in:
  assumes g: "y_top g + 8 \<le> page_break_trigger g" and st: "in_page g st"
  shows "in_page g (render_kv g wrap kv st)"
proof -
  define st1 where "st1 = (if pdf_y st > 260 then pdf_add_page g st else st)"
  define y0 where "y0 = pdf_y st1"
  define st2 where "st2 = pdf_multi_cell g wrap KeyCell (True, 10) (l_margin g) 60 6 (latin1_replace (fst kv)) st1"
  define st3 where "st3 = pdf_set_y y0 st2"
  define st4 where "st4 = pdf_multi_cell g wrap ValueCell (False, 10) (l_margin g + 60) (page_width - 60) 6
       (latin1_replace (snd kv)) st3"
  define rh where "rh = max (pdf_y st2 - y0) (pdf_y st4 - y0)"
  define st5 where "st5 = pdf_rect (l_margin g) y0 60 rh st4"
  define st6 where "st6 = pdf_rect (l_margin g + 60) y0 (page_width - 60) rh st5"
  have r: "render_kv g wrap kv st = pdf_set_y (y0 + rh) st6"
    by (simp add: render_kv_def Let_def st1_def y0_def st2_def st3_def st4_def rh_def st5_def st6_def)
  from g have g6: "y_top g + 6 \<le> page_break_trigger g" and g0: "y_top g \<le> page_break_trigger g"
    by simp_all
  have 1: "in_page g st1" unfolding st1_def using st g0 by (rule check_in)
  have y0: "y_top g \<le> y0" "y0 \<le> page_break_trigger g"
    using in_page_y[OF 1] by (simp_all add: y0_def)
  have 2: "in_page g st2" unfolding st2_def
    using g6 in_page_on[OF 1] by (intro multi_cell_in) (simp_all add: page_width_def)
  have 3: "in_page g st3" unfolding st3_def
    using in_page_on[OF 2] y0 by (rule set_y_in)
  have 4: "in_page g st4" unfolding st4_def
    using g6 in_page_on[OF 3] by (intro multi_cell_in) (simp_all add: page_width_def)
  have rh: "y_top g \<le> y0 + rh" "y0 + rh \<le> page_break_trigger g"
    using in_page_y[OF 2] in_page_y[OF 4] by (simp_all add: rh_def max_def)
  have 5: "in_page g st5" unfolding st5_def
    using 4 y0 rh by (intro rect_in) (simp_all add: page_width_def)
  have 6: "in_page g st6" unfolding st6_def
    using 5 y0 rh by (intro rect_in) (simp_all add: page_width_def)
  show ?thesis unfolding r using in_page_on[OF 6] rh by (rule set_y_in)
qed

lemma render_kv_page:
  "pdf_page st \<le> pdf_page (render_kv g wrap kv st)"
  "pdf_page (render_kv g wrap kv st) = pdf_page st
     \<Longrightarrow> pdf_y (render_kv g wrap kv st) = pdf_y st + kv_height wrap kv"
proof -
  define st1 where "st1 = (if pdf_y st > 260 then pdf_add_page g st else st)"
  define y0 where "y0 = pdf_y st1"
  define st2 where "st2 = pdf_multi_cell g wrap KeyCell (True, 10) (l_margin g) 60 6 (latin1_replace (fst kv)) st1"
  define st3 where "st3 = pdf_set_y y0 st2"
  define st4 where "st4 = pdf_multi_cell g wrap ValueCell (False, 10) (l_margin g + 60) (page_width - 60) 6
       (latin1_replace (snd kv)) st3"
  define rh where "rh = max (pdf_y st2 - y0) (pdf_y st4 - y0)"
  have p: "pdf_page (render_kv g wrap kv st) = pdf_page st4"
    and y: "pdf_y (render_kv g wrap kv st) = y0 + rh"
    by (simp_all add: render_kv_def Let_def st1_def y0_def st2_def st3_def st4_def rh_def)
  have 1: "pdf_page st \<le> pdf_page st1" by (simp add: st1_def)
  have 2: "pdf_page st1 \<le> pdf_page st2" unfolding st2_def by (rule multi_cell_page)
  have 3: "pdf_page st3 = pdf_page st2" by (simp add: st3_def)
  have 4: "pdf_page st3 \<le> pdf_page st4" unfolding st4_def by (rule multi_cell_page)
  show "pdf_page st \<le> pdf_page (render_kv g wrap kv st)" using p 1 2 3 4 by simp
  assume "pdf_page (render_kv g wrap kv st) = pdf_page st"
  with p 1 2 3 4 have e: "pdf_page st1 = pdf_page st" "pdf_page st2 = pdf_page st1"
    "pdf_page st4 = pdf_page st3" by simp_all
  from e(1) have s1: "st1 = st" by (simp add: st1_def split: if_splits)
  have y2: "pdf_y st2 = y0 + of_nat (n_lines wrap (True, 10) 60 (latin1_replace (fst kv))) * 6"
    using multi_cell_page(2)[of g wrap KeyCell "(True, 10)" "l_margin g" 60 6 "latin1_replace (fst kv)" st1]
      e(2) by (simp add: st2_def y0_def)
  have y4: "pdf_y st4 = y0 + of_nat (n_lines wrap (False, 10) (page_width - 60) (latin1_replace (snd kv))) * 6"
    using multi_cell_page(2)[of g wrap ValueCell "(False, 10)" "l_margin g + 60" "page_width - 60" 6
        "latin1_replace (snd kv)" st3]
      e(3) by (simp add: st4_def st3_def)
  show "pdf_y (render_kv g wrap kv st) = pdf_y st + kv_height wrap kv"
    unfolding y rh_def y2 y4 kv_height_def using s1
    by (simp add: y0_def max_def)
qed

lemma render_mapping_in:
  assumes g: "y_top g + 8 \<le> page_break_trigger g"
  shows "in_page g st \<Longrightarrow> in_page g (render_mapping g wrap d st)"
  by (induction d arbitrary: st) (simp_all add: render_kv_in[OF g])

lemma render_mapping_page:
  "pdf_page st \<le> pdf_page (render_mapping g wrap d st)"
  "pdf_page (render_mapping g wrap d st) = pdf_page st
     \<Longrightarrow> pdf_y (render_mapping g wrap d st) = pdf_y st + sum_list (map (kv_height wrap) d)"
proof (induction d arbitrary: st)
  case Nil
  { case 1 show ?case by simp }
  { case 2 show ?case by simp }
next
  case (Cons kv d)
  { case 1
    show ?case using Cons.IH(1)[of "render_kv g wrap kv st"] render_kv_page(1)[of st g wrap kv]
      by simp }
  { case 2
    have a: "pdf_page st \<le> pdf_page (render_kv g wrap kv st)" by (rule render_kv_page)
    have b: "pdf_page (render_kv g wrap kv st) \<le> pdf_page (render_mapping g wrap d (render_kv g wrap kv st))"
      by (rule Cons.IH(1))
    from 2 a b have c: "pdf_page (render_kv g wrap kv st) = pdf_page st" by simp
    with 2 have d: "pdf_page (render_mapping g wrap d (render_kv g wrap kv st)) = pdf_page (render_kv g wrap kv st)"
      by simp
    from Cons.IH(2)[OF d] render_kv_page(2)[OF c] show ?case by (simp add: algebra_simps) }
qed

lemma columns_loop_in:
  assumes g: "y_top g + 6 \<le> page_break_trigger g"
    and y0: "y_top g \<le> y0" "y0 \<le> page_break_trigger g" and cw: "0 \<le> cw"
  shows "on_page g st \<Longrightarrow> of_nat (i + length txts) * cw \<le> page_width
     \<Longrightarrow> \<forall>y \<in> set ys. y_top g \<le> y \<and> y \<le> page_break_trigger g
     \<Longrightarrow> on_page g (fst (columns_loop g wrap kind f (l_margin g) y0 cw i txts st ys))
         \<and> (\<forall>y \<in> set (snd (columns_loop g wrap kind f (l_margin g) y0 cw i txts st ys)).
               y_top g \<le> y \<and> y \<le> page_break_trigger g)
         \<and> length (snd (columns_loop g wrap kind f (l_margin g) y0 cw i txts st ys))
             = length ys + length txts
         \<and> pdf_page st \<le> pdf_page (fst (columns_loop g wrap kind f (l_margin g) y0 cw i txts st ys))"
proof (induction txts arbitrary: st ys i)
  case Nil
  then show ?case by simp
next
  case (Cons tx txts)
  define st1 where "st1 = pdf_set_y y0 st"
  define st2 where "st2 = pdf_multi_cell g wrap kind f (l_margin g + of_nat i * cw) cw 6 tx st1"
  have r: "columns_loop g wrap kind f (l_margin g) y0 cw i (tx # txts) st ys
         = columns_loop g wrap kind f (l_margin g) y0 cw (Suc i) txts st2 (ys @ [pdf_y st2])"
    by (simp add: Let_def st1_def st2_def)
  have 1: "in_page g st1" unfolding st1_def using Cons.prems(1) y0 by (rule set_y_in)
  have le: "of_nat (Suc i) * cw \<le> of_nat (i + length (tx # txts)) * cw"
    using cw by (intro mult_right_mono) simp_all
  have x0: "l_margin g \<le> l_margin g + of_nat i * cw" using cw by simp
  have x1: "l_margin g + of_nat i * cw + cw \<le> l_margin g + page_width"
    using le Cons.prems(2) by (simp add: algebra_simps)
  have 2: "in_page g st2" unfolding st2_def
    using g x0 x1 in_page_on[OF 1] by (intro multi_cell_in) simp_all
  have p: "pdf_page st \<le> pdf_page st2"
    using multi_cell_page(1)[of st1 g wrap kind f "l_margin g + of_nat i * cw" cw 6 tx]
    by (simp add: st2_def st1_def)
  have ys: "\<forall>y \<in> set (ys @ [pdf_y st2]). y_top g \<le> y \<and> y \<le> page_break_trigger g"
    using Cons.prems(3) in_page_y[OF 2] by auto
  have n: "of_nat (Suc i + length txts) * cw \<le> page_width" using Cons.prems(2) by simp
  from Cons.IH[OF in_page_on[OF 2] n ys] p show ?case unfolding r by simp
qed

lemma py_max_mem: "ys \<noteq> [] \<Longrightarrow> py_max ys \<in> set ys"
  by (induction ys rule: py_max.induct) (auto simp: max_def)

lemma rects_loop_on:
  assumes y0: "y_top g \<le> y0" "y0 \<le> page_break_trigger g"
    "y_top g \<le> y0 + rh" "y0 + rh \<le> page_break_trigger g" and cw: "0 \<le> cw"
  shows "on_page g st \<Longrightarrow> \<forall>i \<in> set is. of_nat (Suc i) * cw \<le> page_width
     \<Longrightarrow> on_page g (rects_loop (l_margin g) y0 cw rh is st)
         \<and> pdf_page (rects_loop (l_margin g) y0 cw rh is st) = pdf_page st"
proof (induction "is" arbitrary: st)
  case Nil
  then show ?case by simp
next
  case (Cons i "is")
  have x0: "l_margin g \<le> l_margin g + of_nat i * cw" using cw by simp
  have x1: "l_margin g + of_nat i * cw + cw \<le> l_margin g + page_width"
    using Cons.prems(2) by (simp add: algebra_simps)
  have 1: "on_page g (pdf_rect (l_margin g + of_nat i * cw) y0 cw rh st)"
    using Cons.prems(1) y0 x0 x1 by (intro rect_on)
  from Cons.IH[OF 1] Cons.prems(2) show ?case by simp
qed

lemma render_row_in:
  assumes g: "y_top g + 8 \<le> page_break_trigger g" and st: "in_page g st"
    and txts: "txts \<noteq> []" and cw: "0 \<le> cw" "of_nat (length txts) * cw \<le> page_width"
  shows "in_page g (render_row g wrap kind f cw txts st)
       \<and> pdf_page st \<le> pdf_page (render_row g wrap kind f cw txts st)"
proof -
  define st1 where "st1 = (if pdf_y st > 260 then pdf_add_page g st else st)"
  define y0 where "y0 = pdf_y st1"
  define cl where "cl = columns_loop g wrap kind f (l_margin g) y0 cw 0 txts st1 []"
  define rh where "rh = py_max (snd cl) - y0"
  define st3 where "st3 = rects_loop (l_margin g) y0 cw rh [0..<length txts] (fst cl)"
  have r: "render_row g wrap kind f cw txts st = pdf_set_y (y0 + rh) st3"
    by (simp add: render_row_def Let_def st1_def y0_def cl_def rh_def st3_def split: prod.splits)
  from g have g6: "y_top g + 6 \<le> page_break_trigger g" and g0: "y_top g \<le> page_break_trigger g"
    by simp_all
  have 1: "in_page g st1" unfolding st1_def using st g0 by (rule check_in)
  have p1: "pdf_page st \<le> pdf_page st1" by (simp add: st1_def)
  have y0: "y_top g \<le> y0" "y0 \<le> page_break_trigger g"
    using in_page_y[OF 1] by (simp_all add: y0_def)
  have c: "on_page g (fst cl)"
    "\<forall>y \<in> set (snd cl). y_top g \<le> y \<and> y \<le> page_break_trigger g"
    "length (snd cl) = length txts" "pdf_page st1 \<le> pdf_page (fst cl)"
    using columns_loop_in[OF g6 y0 cw(1), of st1 0 txts "[]" wrap kind f] in_page_on[OF 1] cw(2)
    by (simp_all add: cl_def)
  from c(3) txts have "snd cl \<noteq> []" by auto
  from py_max_mem[OF this] c(2)
  have rh: "y_top g \<le> y0 + rh" "y0 + rh \<le> page_break_trigger g" by (simp_all add: rh_def)
  have ix: "\<forall>i \<in> set [0..<length txts]. of_nat (Suc i) * cw \<le> page_width"
  proof
    fix i assume "i \<in> set [0..<length txts]"
    then have "Suc i \<le> length txts" by simp
    then have "(of_nat (Suc i) :: rat) \<le> of_nat (length txts)" by (simp only: of_nat_le_iff)
    then have "of_nat (Suc i) * cw \<le> of_nat (length txts) * cw" using cw(1) by (rule mult_right_mono)
    with cw(2) show "of_nat (Suc i) * cw \<le> page_width" by simp
  qed
  have 3: "on_page g st3" "pdf_page st3 = pdf_page (fst cl)"
    using rects_loop_on[OF y0 rh cw(1) c(1) ix] by (simp_all add: st3_def)
  have "in_page g (pdf_set_y (y0 + rh) st3)" using 3(1) rh by (rule set_y_in)
  moreover have "pdf_page st \<le> pdf_page (pdf_set_y (y0 + rh) st3)" using p1 c(4) 3(2) by simp
  ultimately show ?thesis unfolding r by simp
qed

lemma render_data_rows_in:
  assumes g: "y_top g + 8 \<le> page_break_trigger g"
    and hs: "headers \<noteq> []" and cw: "0 \<le> cw" "of_nat (length headers) * cw \<le> page_width"
  shows "in_page g st \<Longrightarrow> in_page g (render_data_rows g wrap cw headers content st)
       \<and> pdf_page st \<le> pdf_page (render_data_rows g wrap cw headers content st)"
proof (induction content arbitrary: st)
  case Nil
  then show ?case by simp
next
  case (Cons row content)
  have t: "row_texts headers row \<noteq> []" "length (row_texts headers row) = length headers"
    using hs by (simp_all add: row_texts_def)
  from render_row_in[OF g Cons.prems t(1) cw(1), of wrap DataCell "(False, 9)"] cw(2) t(2)
  have 1: "in_page g (render_row g wrap DataCell (False, 9) cw (row_texts headers row) st)"
    "pdf_page st \<le> pdf_page (render_row g wrap DataCell (False, 9) cw (row_texts headers row) st)"
    by simp_all
  from Cons.IH[OF 1(1)] 1(2) show ?case by simp
qed

lemma render_table_in:
  assumes g: "y_top g + 8 \<le> page_break_trigger g" and st: "in_page g st"
  shows "in_page g (render_table g wrap content st)
       \<and> pdf_page st \<le> pdf_page (render_table g wrap content st)"
proof (cases content)
  case Nil
  have "in_page g (pdf_cell g NoRecordsRow 0 6 (u ''No records found.'') st)"
    using in_page_on[OF st] g by (intro pdf_cell_in) simp_all
  with Nil pdf_cell_page(1)[of st g NoRecordsRow 0 6] show ?thesis
    by (simp add: render_table_def)
next
  case (Cons first others)
  show ?thesis
  proof (cases "dict_keys first = []")
    case True
    with Cons st show ?thesis by (simp add: render_table_def)
  next
    case False
    define cw where "cw = page_width / of_nat (length (dict_keys first))"
    have n: "0 < length (dict_keys first)" using False by simp
    have cw: "0 \<le> cw" "of_nat (length (dict_keys first)) * cw \<le> page_width"
      using n by (simp_all add: cw_def page_width_def)
    have t: "map latin1_replace (dict_keys first) \<noteq> []" using False by simp
    from render_row_in[OF g st t cw(1), of wrap HeaderCell "(True, 10)"] cw(2)
    have 1: "in_page g (render_row g wrap HeaderCell (True, 10) cw (map latin1_replace (dict_keys first)) st)"
      "pdf_page st \<le> pdf_page (render_row g wrap HeaderCell (True, 10) cw (map latin1_replace (dict_keys first)) st)"
      by simp_all
    from render_data_rows_in[OF g False cw 1(1), of wrap content] 1(2) Cons False n show ?thesis
      by (simp add: render_table_def Let_def cw_def)
  qed
qed

lemma render_section_body:
  "render_section g wrap sc st =
     pdf_ln 5 (case snd sc of
        Mapping content \<Rightarrow> render_mapping g wrap content
          (pdf_cell g SectionHeader 0 8 (fst sc) (if pdf_y st > 250 then pdf_add_page g st else st))
      | Table content \<Rightarrow> render_table g wrap content
          (pdf_cell g SectionHeader 0 8 (fst sc) (if pdf_y st > 250 then pdf_add_page g st else st))
      | Scalar content \<Rightarrow> pdf_multi_cell g wrap TextBlock (False, 10) (l_margin g) 0 6
          (latin1_replace content)
          (pdf_cell g SectionHeader 0 8 (fst sc) (if pdf_y st > 250 then pdf_add_page g st else st)))"
  by (simp add: render_section_def Let_def split: content.splits)

lemma render_section_on:
  assumes g: "y_top g + 8 \<le> page_break_trigger g" and st: "on_page g st"
  shows "on_page g (render_section g wrap sc st)
       \<and> pdf_page st \<le> pdf_page (render_section g wrap sc st)"
proof -
  define st1 where "st1 = (if pdf_y st > 250 then pdf_add_page g st else st)"
  define st2 where "st2 = pdf_cell g SectionHeader 0 8 (fst sc) st1"
  have 1: "on_page g st1" "pdf_page st \<le> pdf_page st1"
    using st by (simp_all add: st1_def add_page_on)
  have 2: "in_page g st2" unfolding st2_def using 1(1) g by (intro pdf_cell_in) simp_all
  have p2: "pdf_page st \<le> pdf_page st2"
    using 1(2) pdf_cell_page(1)[of st1 g SectionHeader 0 8 "fst sc"] by (simp add: st2_def)
  from g have g6: "y_top g + 6 \<le> page_break_trigger g" by simp
  show ?thesis
  proof (cases "snd sc")
    case (Mapping d)
    have "in_page g (render_mapping g wrap d st2)" using g 2 by (rule render_mapping_in)
    moreover have "pdf_page st2 \<le> pdf_page (render_mapping g wrap d st2)"
      by (rule render_mapping_page)
    ultimately show ?thesis using Mapping p2
      by (simp add: render_section_body st1_def[symmetric] st2_def[symmetric] ln_on in_page_on)
  next
    case (Table rows)
    from render_table_in[OF g 2, of wrap rows] show ?thesis using Table p2
      by (simp add: render_section_body st1_def[symmetric] st2_def[symmetric] ln_on in_page_on)
  next
    case (Scalar s)
    have "in_page g (pdf_multi_cell g wrap TextBlock (False, 10) (l_margin g) 0 6 (latin1_replace s) st2)"
      using g6 in_page_on[OF 2] by (intro multi_cell_in) (simp_all add: page_width_def)
    moreover have "pdf_page st2 \<le> pdf_page (pdf_multi_cell g wrap TextBlock (False, 10) (l_margin g) 0 6 (latin1_replace s) st2)"
      by (rule multi_cell_page)
    ultimately show ?thesis using Scalar p2
      by (simp add: render_section_body st1_def[symmetric] st2_def[symmetric] ln_on in_page_on)
  qed
qed

lemma tall_mapping_breaks:
  assumes g: "y_top g + 8 \<le> page_break_trigger g" and st: "on_page g st"
    and tall: "page_break_trigger g < y_top g + mapping_height wrap d"
  shows "pdf_page st < pdf_page (render_section g wrap (name, Mapping d) st)"
proof (rule ccontr)
  assume n: "\<not> pdf_page st < pdf_page (render_section g wrap (name, Mapping d) st)"
  define st1 where "st1 = (if pdf_y st > 250 then pdf_add_page g st else st)"
  define st2 where "st2 = pdf_cell g SectionHeader 0 8 name st1"
  define st3 where "st3 = render_mapping g wrap d st2"
  have r: "pdf_page (render_section g wrap (name, Mapping d) st) = pdf_page st3"
    by (simp add: render_section_body st1_def st2_def st3_def)
  have 1: "on_page g st1" "pdf_page st \<le> pdf_page st1"
    using st by (simp_all add: st1_def add_page_on)
  have 2: "in_page g st2" unfolding st2_def using 1(1) g by (intro pdf_cell_in) simp_all
  have p2: "pdf_page st1 \<le> pdf_page st2" unfolding st2_def by (rule pdf_cell_page)
  have 3: "in_page g st3" unfolding st3_def using g 2 by (rule render_mapping_in)
  have p3: "pdf_page st2 \<le> pdf_page st3" unfolding st3_def by (rule render_mapping_page)
  from n r 1(2) p2 p3 have e: "pdf_page st1 = pdf_page st" "pdf_page st2 = pdf_page st1"
    "pdf_page st3 = pdf_page st2" by simp_all
  from e(1) have s1: "st1 = st" by (simp add: st1_def split: if_splits)
  have y2: "pdf_y st2 = pdf_y st + 8"
    using pdf_cell_page(2)[of g SectionHeader 0 8 name st1] e(2) s1 by (simp add: st2_def)
  have y3: "pdf_y st3 = pdf_y st2 + sum_list (map (kv_height wrap) d)"
    using render_mapping_page(2)[of g wrap d st2] e(3) by (simp add: st3_def)
  have "y_top g \<le> pdf_y st" using st by (simp add: on_page_def)
  moreover have "pdf_y st3 \<le> page_break_trigger g" using in_page_y[OF 3] by simp
  ultimately show False using tall y2 y3 by (simp add: mapping_height_def)
qed

lemma render_sections_on:
  assumes g: "y_top g + 8 \<le> page_break_trigger g"
  shows "on_page g st \<Longrightarrow> on_page g (render_sections g wrap data st)
       \<and> pdf_page st \<le> pdf_page (render_sections g wrap data st)"
proof (induction data arbitrary: st)
  case Nil
  then show ?case by simp
next
  case (Cons sc data)
  from render_section_on[OF g Cons.prems, of wrap sc]
  have 1: "on_page g (render_section g wrap sc st)"
    "pdf_page st \<le> pdf_page (render_section g wrap sc st)" by simp_all
  from Cons.IH[OF 1(1)] 1(2) show ?case by simp
qed

lemma render_sections_tall:
  assumes g: "y_top g + 8 \<le> page_break_trigger g"
    and tall: "page_break_trigger g < y_top g + mapping_height wrap d"
  shows "on_page g st \<Longrightarrow> (name, Mapping d) \<in> set data
     \<Longrightarrow> pdf_page st < pdf_page (render_sections g wrap data st)"
proof (induction data arbitrary: st)
  case Nil
  then show ?case by simp
next
  case (Cons sc data)
  from render_section_on[OF g Cons.prems(1), of wrap sc]
  have 1: "on_page g (render_section g wrap sc st)"
    "pdf_page st \<le> pdf_page (render_section g wrap sc st)" by simp_all
  show ?case
  proof (cases "sc = (name, Mapping d)")
    case True
    from tall_mapping_breaks[OF g Cons.prems(1) tall, of name]
      render_sections_on[OF g 1(1), of wrap data] True
    show ?thesis by simp
  next
    case False
    with Cons.prems(2) have "(name, Mapping d) \<in> set data" by simp
    from Cons.IH[OF 1(1) this] 1(2) show ?thesis by simp
  qed
qed

lemma first_page_on: "on_page g (pdf_add_page g new_pdf)"
  by (simp add: on_page_def all_printable_def new_pdf_def)

subsection \<open>The pages of the report\<close>

text \<open>
  Claim C5. On a page that has room for a section header under its page header (as the A4
  page of the source has), every block of the report, a cell or a border, lies on one of
  the pages of the document, between the top of the page under its header and the page
  break trigger, and between the left margin and the \<open>page_width\<close> of the source from it.
  When the header and the rows of a Mapping section are together higher than the page
  between these two bounds, the document has at least two pages.
\<close>

theorem blocks_within_page:
  assumes "y_top g + 8 \<le> page_break_trigger g"
  shows "all_printable g (layout g wrap data)
       \<and> ((name, Mapping d) \<in> set data
            \<and> page_break_trigger g - y_top g < mapping_height wrap d
          \<longrightarrow> 2 \<le> pdf_page (layout g wrap data))"
proof -
  from render_sections_on[OF assms first_page_on, of wrap data]
  have a: "all_printable g (layout g wrap data)" by (simp add: layout_def on_page_def)
  have b: "2 \<le> pdf_page (layout g wrap data)"
    if "(name, Mapping d) \<in> set data" "page_break_trigger g - y_top g < mapping_height wrap d"
  proof -
    from that(2) have "page_break_trigger g < y_top g + mapping_height wrap d" by simp
    from render_sections_tall[OF assms this first_page_on that(1)]
    show ?thesis by (simp add: layout_def new_pdf_def)
  qed
  from a b show ?thesis by blast
qed

text \<open>A Mapping of fifty rows of one line each is 308 high, more than the A4 page holds:
  its report has two pages at least and all its blocks are within them.\<close>

theorem blocks_within_page_witness:
  "y_top a4 + 8 \<le> page_break_trigger a4
   \<and> mapping_height wrap40 fifty_rows = 308
   \<and> page_break_trigger a4 - y_top a4 < 308
   \<and> all_printable a4 (layout a4 wrap40 [(u ''Case Details'', Mapping fifty_rows)])
   \<and> 2 \<le> pdf_page (layout a4 wrap40 [(u ''Case Details'', Mapping fifty_rows)])"
proof -
  have g: "y_top a4 + 8 \<le> page_break_trigger a4" "page_break_trigger a4 - y_top a4 < 308"
    by (simp_all add: a4_def)
  have k: "kv_height wrap40 (u ''Key'', u ''value'') = 6"
    by (simp add: kv_height_def n_lines_def wrap40_def latin1_replace_def u_def)
  have "sum_list (map (kv_height wrap40) fifty_rows) = 300"
    by (simp add: fifty_rows_def k comp_def sum_list_triv)
  then have h: "mapping_height wrap40 fifty_rows = 308" by (simp add: mapping_height_def)
  from blocks_within_page[OF g(1), of wrap40 "[(u ''Case Details'', Mapping fifty_rows)]"
      "u ''Case Details''" fifty_rows] g h
  show ?thesis by simp
qed

subsection \<open>The request handler\<close>








end
